theory Spec2Isabelle
  imports Main "HOL-Library.Sublist" "HOL-Library.AList" "HOL-Library.Multiset"
begin

section \<open>Text helpers\<close>

text \<open>
  Python's \<^verbatim>\<open>needle in haystack\<close> on strings: the needle occurs as a contiguous
  run of the haystack. The empty needle occurs in every string.
\<close>

fun contains :: "string \<Rightarrow> string \<Rightarrow> bool" where
  "contains s [] = (s = [])"
| "contains s (c # cs) = (prefix s (c # cs) \<or> contains s cs)"

text \<open>\<^verbatim>\<open>str.startswith\<close> and \<^verbatim>\<open>str.endswith\<close>.\<close>

definition startswith :: "string \<Rightarrow> string \<Rightarrow> bool" where
  "startswith s p = prefix p s"

definition endswith :: "string \<Rightarrow> string \<Rightarrow> bool" where
  "endswith s p = prefix (rev p) (rev s)"

text \<open>\<^verbatim>\<open>sep.join(parts)\<close>.\<close>

fun join :: "string \<Rightarrow> string list \<Rightarrow> string" where
  "join sep [] = []"
| "join sep [x] = x"
| "join sep (x # y # ys) = x @ sep @ join sep (y # ys)"

text \<open>
  A character of the model is a code point below 256. \<^verbatim>\<open>str.splitlines\<close> ends a
  line at LF, CR, CR LF, VT, FF, FS, GS, RS and NEL (the line boundaries below 256; the
  two boundaries U+2028 and U+2029 are no characters of the model), and a boundary at the
  end of the text does not open a last, empty line.
\<close>

definition is_line_end :: "char \<Rightarrow> bool" where
  "is_line_end c =
     (c \<in> set [CHR 0x0A, CHR 0x0B, CHR 0x0C, CHR 0x0D, CHR 0x1C, CHR 0x1D, CHR 0x1E, CHR 0x85])"

fun splitlines_acc :: "string \<Rightarrow> string \<Rightarrow> string list" where
  "splitlines_acc cur [] = (if cur = [] then [] else [cur])"
| "splitlines_acc cur [c] = (if is_line_end c then [cur] else [cur @ [c]])"
| "splitlines_acc cur (c # d # cs) =
     (if c = CHR 0x0D \<and> d = CHR 0x0A then cur # splitlines_acc [] cs
      else if is_line_end c then cur # splitlines_acc [] (d # cs)
      else splitlines_acc (cur @ [c]) (d # cs))"

definition splitlines :: "string \<Rightarrow> string list" where
  "splitlines s = splitlines_acc [] s"

text \<open>
  \<^verbatim>\<open>str.strip()\<close> removes white space at both ends; the white space below 256 is
  HT, LF, VT, FF, CR, FS, GS, RS, US, the space, NEL and the no-break space.
\<close>

definition is_space :: "char \<Rightarrow> bool" where
  "is_space c =
     (c \<in> set [CHR 0x09, CHR 0x0A, CHR 0x0B, CHR 0x0C, CHR 0x0D, CHR 0x1C, CHR 0x1D, CHR 0x1E,
               CHR 0x1F, CHR 0x20, CHR 0x85, CHR 0xA0])"

definition strip :: "string \<Rightarrow> string" where
  "strip s = rev (dropWhile is_space (rev (dropWhile is_space s)))"

text \<open>\<^verbatim>\<open>line.strip().startswith("@")\<close>.\<close>

definition is_decorator_line :: "string \<Rightarrow> bool" where
  "is_decorator_line line = startswith (strip line) ''@''"

section \<open>Python values and their \<^verbatim>\<open>str()\<close> text\<close>

text \<open>
  The values of \<^verbatim>\<open>ast.Constant\<close> nodes and of the dictionaries scrape.py builds.
  \<open>PyOpaque\<close> stands for a value of any other type (float, bytes, complex, Ellipsis)
  and carries the text \<^verbatim>\<open>str()\<close> gives for it: the code only formats such values.
\<close>

datatype pyval = PyStr string | PyInt int | PyBool bool | PyNone | PyOpaque string

definition digit_char :: "nat \<Rightarrow> char" where
  "digit_char d = ''0123456789'' ! d"

fun nat_digits :: "nat \<Rightarrow> string" where
  "nat_digits n = (if n < 10 then [digit_char n] else nat_digits (n div 10) @ [digit_char (n mod 10)])"

declare nat_digits.simps [simp del]

definition int_str :: "int \<Rightarrow> string" where
  "int_str i = (if i < 0 then CHR ''-'' # nat_digits (nat (- i)) else nat_digits (nat i))"

fun py_str :: "pyval \<Rightarrow> string" where
  "py_str (PyStr s) = s"
| "py_str (PyInt i) = int_str i"
| "py_str (PyBool b) = (if b then ''True'' else ''False'')"
| "py_str PyNone = ''None''"
| "py_str (PyOpaque t) = t"

text \<open>\<^verbatim>\<open>isinstance(value, str)\<close>.\<close>

fun is_str :: "pyval \<Rightarrow> bool" where
  "is_str (PyStr s) = True"
| "is_str _ = False"

section \<open>The entry-file scanner: \<^verbatim>\<open>scrape_init\<close>\<close>

text \<open>
  The syntax tree of the entry file, as far as \<^verbatim>\<open>scrape_init\<close> looks at it.
  An expression is a constant, a name, an attribute access, a call (function, positional
  arguments, keywords as pairs of \<^verbatim>\<open>kw.arg\<close> and \<^verbatim>\<open>kw.value\<close>; \<^verbatim>\<open>kw.arg\<close>
  is \<^verbatim>\<open>None\<close> for \<^verbatim>\<open>**kwargs\<close>), or another expression, kept as the text
  \<^verbatim>\<open>ast.unparse\<close> gives for it.
\<close>

datatype expr =
    Constant pyval
  | Name string
  | Attribute expr string
  | Call expr "expr list" "(string option \<times> expr) list"
  | OtherExpr string

text \<open>
  A statement is an \<^verbatim>\<open>ast.Assign\<close> (targets, value), a function or class definition
  with its body, any other node that holds statements (\<open>Compound\<close>: an \<^verbatim>\<open>if\<close>,
  a loop, a \<^verbatim>\<open>with\<close>, a \<^verbatim>\<open>try\<close> and each of its handlers, with the nested
  statements in field order), or a statement without nested statements
  (\<open>OtherStmt\<close>: an expression statement, an annotated or augmented assignment, an
  import). Only \<^verbatim>\<open>ast.Assign\<close> nodes are looked at, and they occur under statement
  nodes only, so expression nodes are left out of the walk.
\<close>

datatype stmt =
    Assign "expr list" expr
  | FunctionDef string "stmt list"
  | ClassDef string "stmt list"
  | Compound "stmt list"
  | OtherStmt

fun iter_child_nodes :: "stmt \<Rightarrow> stmt list" where
  "iter_child_nodes (Assign targets v) = []"
| "iter_child_nodes (FunctionDef f body) = body"
| "iter_child_nodes (ClassDef c body) = body"
| "iter_child_nodes (Compound body) = body"
| "iter_child_nodes OtherStmt = []"

text \<open>
  \<^verbatim>\<open>ast.walk\<close>: a queue of nodes; the first node is taken out, its children are put
  at the end of the queue, and the node is yielded: breadth first, in no way limited to
  the top level.
\<close>

function walk :: "stmt list \<Rightarrow> stmt list" where
  "walk [] = []"
| "walk (node # todo) = node # walk (todo @ iter_child_nodes node)"
  by pat_completeness auto

lemma sum_size_children: "sum_list (map (\<lambda>n. Suc (size n)) (iter_child_nodes node)) \<le> size node"
proof -
  have le: "sum_list (map (\<lambda>n. Suc (size n)) body) \<le> size_list size body" for body :: "stmt list"
    by (induction body) auto
  show ?thesis
    using le by (cases node) (auto simp: le_SucI)
qed

termination walk
proof (relation "measure (\<lambda>todo. sum_list (map (\<lambda>n. Suc (size n)) todo))")
  show "wf (measure (\<lambda>todo. sum_list (map (\<lambda>n. Suc (size n)) todo)))" by simp
next
  fix node :: stmt and todo :: "stmt list"
  show "(todo @ iter_child_nodes node, node # todo)
          \<in> measure (\<lambda>todo. sum_list (map (\<lambda>n. Suc (size n)) todo))"
    using sum_size_children [of node] by simp
qed

text \<open>
  The dictionaries \<^verbatim>\<open>scrape_init\<close> builds, and \<^verbatim>\<open>get_obj_dependencies\<close> after it:
  \<^verbatim>\<open>{"type": "constant", "target", "value"}\<close>,
  \<^verbatim>\<open>{"type": "union", "target", "value"}\<close> and
  \<^verbatim>\<open>{"type": "call", "target", "cls_name"}\<close>, the last with the keys
  \<^verbatim>\<open>keywords\<close> and \<^verbatim>\<open>values\<close> when the call has keywords.
\<close>

datatype variable =
    ConstantVar string pyval
  | UnionVar string string
  | CallVar string string "(string option list \<times> pyval list) option"

fun target :: "variable \<Rightarrow> string" where
  "target (ConstantVar t v) = t"
| "target (UnionVar t v) = t"
| "target (CallVar t c kws) = t"

fun extract_value :: "expr \<Rightarrow> pyval" where
  "extract_value (Constant v) = v"
| "extract_value (Name i) = PyStr i"
| "extract_value (Attribute e a) = PyStr (py_str (extract_value e) @ ''.'' @ a)"
| "extract_value (Call (Attribute e a) args kws) = PyStr (py_str (extract_value e) @ ''.'' @ a @ ''()'')"
| "extract_value (Call (Name f) args kws) = PyStr (f @ ''()'')"
| "extract_value (Call func args kws) = PyNone"
| "extract_value (OtherExpr text) = PyStr text"

text \<open>
  What one assignment to the name \<open>t\<close> records: a call of a plain name, a constant,
  or nothing.
\<close>

fun assign_data :: "string \<Rightarrow> expr \<Rightarrow> variable option" where
  "assign_data t (Call (Name f) args kws) =
     Some (CallVar t f (if kws = [] then None
                        else Some (map fst kws, map (\<lambda>kw. extract_value (snd kw)) kws)))"
| "assign_data t (Constant v) = Some (ConstantVar t v)"
| "assign_data t e = None"

text \<open>
  The body of the loop over the targets of one assignment: \<^verbatim>\<open>unique_variables\<close>
  is a dictionary, so storing under a key that is there keeps the key's place and
  replaces its value (\<open>AList.update\<close>).
\<close>

fun visit_target :: "expr \<Rightarrow> expr \<Rightarrow> (string \<times> variable) list \<Rightarrow> (string \<times> variable) list" where
  "visit_target v (Name t) unique_variables =
     (case assign_data t v of
        Some data \<Rightarrow> AList.update t data unique_variables
      | None \<Rightarrow> unique_variables)"
| "visit_target v tgt unique_variables = unique_variables"

fun visit_node :: "stmt \<Rightarrow> (string \<times> variable) list \<Rightarrow> (string \<times> variable) list" where
  "visit_node (Assign targets v) unique_variables = fold (visit_target v) targets unique_variables"
| "visit_node node unique_variables = unique_variables"

text \<open>
  \<^verbatim>\<open>scrape_init\<close> on the parsed entry file, given as the statements of its module
  body (the module node itself is no assignment).
\<close>

definition scrape_init :: "stmt list \<Rightarrow> variable list" where
  "scrape_init body = map snd (fold visit_node (walk body) [])"

section \<open>Runtime objects, as \<^verbatim>\<open>get_obj_dependencies\<close> observes them\<close>

text \<open>The exceptions that leave the functions of scrape.py.\<close>

datatype error =
    TypeError | AttributeError | OSError | KeyError | UnboundLocalError | YAMLError
  | CyclicLocalDependency

text \<open>
  \<^verbatim>\<open>processed\<close> is a Python set of objects, so membership goes by hash and
  equality: a reference object is itself (\<open>KRef\<close>, its identity), equal numbers and
  equal strings are one element.
\<close>

datatype hashkey = KRef nat | KNum int | KStr string | KFloat string

text \<open>An attribute that may be missing, \<^verbatim>\<open>None\<close>, or a string.\<close>

datatype attr = Missing | IsNone | Str string

text \<open>
  A member of \<^verbatim>\<open>obj.__args__\<close>: a class (\<^verbatim>\<open>__name__\<close>, \<^verbatim>\<open>__module__\<close>),
  another object that has a \<^verbatim>\<open>__name__\<close>, or an object without one, with its
  \<^verbatim>\<open>str()\<close> text.
\<close>

datatype type_arg = ClassArg string string | NamedArg string | PlainArg string

text \<open>
  An object bound in a module's globals is a record of what the code asks of it:
  \<^item> \<open>hash_key\<close>: its element in a set; \<open>None\<close> when it is unhashable (a list, a
    dict), where \<^verbatim>\<open>obj not in processed\<close> raises \<^verbatim>\<open>TypeError\<close>;
  \<^item> \<open>type_name\<close>: \<^verbatim>\<open>type(obj).__name__\<close>;
  \<^item> \<open>dunder_args\<close>: \<^verbatim>\<open>obj.__args__\<close>, \<open>None\<close> when the attribute is missing;
  \<^item> \<open>literal_text\<close>: \<^verbatim>\<open>f"{obj}"\<close> when \<^verbatim>\<open>isinstance(obj, (int, str, float, bool))\<close>;
  \<^item> \<open>module_view\<close>: \<^verbatim>\<open>obj.__name__\<close> and \<^verbatim>\<open>obj.__file__\<close> when
    \<^verbatim>\<open>inspect.ismodule(obj)\<close>;
  \<^item> \<open>dunder_module\<close>: \<^verbatim>\<open>obj.__module__\<close>;
  \<^item> \<open>is_typevar\<close>: \<^verbatim>\<open>isinstance(obj, TypeVar)\<close>;
  \<^item> \<open>is_class\<close>: \<^verbatim>\<open>inspect.isclass(obj)\<close>;
  \<^item> \<open>getsource\<close>: \<^verbatim>\<open>inspect.getsource(obj)\<close>: the text, or the exception it
    raises (\<^verbatim>\<open>TypeError\<close> for an object that is no module, class, method, function
    or code object, \<^verbatim>\<open>OSError\<close> when the source cannot be found).
  A file path is the absolute path \<^verbatim>\<open>os.path.abspath\<close> gives.
\<close>

record pyobj =
  hash_key :: "hashkey option"
  type_name :: string
  dunder_args :: "type_arg list option"
  literal_text :: "string option"
  module_view :: "(string \<times> attr) option"
  dunder_module :: attr
  is_typevar :: bool
  is_class :: bool
  getsource :: "error + string"

text \<open>A module of \<^verbatim>\<open>sys.modules\<close>: its identity, \<^verbatim>\<open>__file__\<close> and \<^verbatim>\<open>__dict__\<close>.\<close>

record py_module =
  mod_key :: hashkey
  mod_file :: attr
  mod_dict :: "(string \<times> pyobj) list"

text \<open>
  What a YAML path holds: no file, a file that \<^verbatim>\<open>yaml.safe_load\<close> parses (with the
  text \<^verbatim>\<open>str()\<close> gives for the parsed data), or a file whose reading raises.
\<close>

datatype fs_entry = Absent | Loads string | Fails error

text \<open>
  The process the code runs in: the working directory (absolute), the loaded modules
  by name, and the files by the path text the code builds.
\<close>

record env =
  cwd :: string
  sys_modules :: "(string \<times> py_module) list"
  files :: "string \<Rightarrow> fs_entry"

text \<open>
  The dictionaries \<^verbatim>\<open>obj_info\<close> and \<^verbatim>\<open>class_info\<close>: \<open>module\<close> is \<open>None\<close>
  for Python's \<^verbatim>\<open>None\<close>; \<open>source\<close> and \<open>import_needed\<close> are \<open>None\<close> when the
  dictionary has no such key.
\<close>

record symbol_ref =
  name :: string
  module :: "string option"
  import_type :: string
  is_local :: bool
  source :: "string option"
  import_needed :: "bool option"

section \<open>Locality: \<^verbatim>\<open>is_local_module\<close>\<close>

text \<open>\<^verbatim>\<open>os.path.join(a, b)\<close> for a relative \<open>b\<close>.\<close>

definition path_join :: "string \<Rightarrow> string \<Rightarrow> string" where
  "path_join a b = (if a = [] \<or> endswith a ''/'' then a @ b else a @ ''/'' @ b)"

definition is_local_module :: "string \<Rightarrow> attr \<Rightarrow> error + bool" where
  "is_local_module current_dir file =
     (case file of
        Missing \<Rightarrow> Inr False
      | IsNone \<Rightarrow> Inl TypeError
      | Str module_path \<Rightarrow>
          Inr (if startswith module_path current_dir
               then (if startswith module_path (path_join current_dir ''.venv'') then False else True)
               else False))"

section \<open>Classification: \<^verbatim>\<open>get_obj_dependencies\<close>\<close>

fun arg_text :: "type_arg \<Rightarrow> string" where
  "arg_text (ClassArg n m) = n"
| "arg_text (NamedArg n) = n"
| "arg_text (PlainArg s) = s"

definition union_value :: "type_arg list \<Rightarrow> string" where
  "union_value args = ''Union['' @ join '', '' (map arg_text args) @ '']''"

fun union_member :: "type_arg \<Rightarrow> symbol_ref list" where
  "union_member (ClassArg n m) =
     [\<lparr>name = n, module = Some m, import_type = ''selective'', is_local = False,
       source = None, import_needed = None\<rparr>]"
| "union_member a = []"

text \<open>
  What the body of the loop does with one binding, up to the recursive call:
  \<^item> \<open>Skip\<close>: the binding is passed over and \<^verbatim>\<open>processed\<close> stays as it is;
  \<^item> \<open>Raise\<close>: an exception leaves the function;
  \<^item> \<open>Record k ms vs\<close>: the object (element \<open>k\<close>) is added to \<^verbatim>\<open>processed\<close>,
    \<open>ms\<close> is appended to \<^verbatim>\<open>modules\<close> and \<open>vs\<close> to \<^verbatim>\<open>variables\<close>;
  \<^item> \<open>Expand k obj_info m src\<close>: the object is added to \<^verbatim>\<open>processed\<close>, the
    function calls itself on the globals of the object's module \<open>m\<close> with the object's
    source \<open>src\<close>, and \<open>obj_info\<close> is appended after what the call returns.
\<close>

datatype action =
    Skip
  | Raise error
  | Record hashkey "symbol_ref list" "variable list"
  | Expand hashkey symbol_ref py_module string

definition classify :: "env \<Rightarrow> string \<Rightarrow> pyobj \<Rightarrow> string \<Rightarrow> hashkey set \<Rightarrow> action" where
  "classify e nm obj fn_code processed =
     (if \<not> contains nm fn_code then Skip
      else (case hash_key obj of
        None \<Rightarrow> Raise TypeError
      | Some k \<Rightarrow>
         (if k \<in> processed then Skip
          else if startswith nm ''__'' then Skip
          else if contains ''Union'' (type_name obj) then
            (case dunder_args obj of
               None \<Rightarrow> Raise AttributeError
             | Some args \<Rightarrow>
                 Record k (concat (map union_member args)) [UnionVar nm (union_value args)])
          else if literal_text obj \<noteq> None then
            Record k [] [ConstantVar nm (PyStr (the (literal_text obj)))]
          else if module_view obj \<noteq> None then
            (case is_local_module (cwd e) (snd (the (module_view obj))) of
               Inl err \<Rightarrow> Raise err
             | Inr loc \<Rightarrow>
                 Record k [\<lparr>name = nm, module = Some (fst (the (module_view obj))),
                            import_type = ''standard'', is_local = loc, source = None,
                            import_needed = None\<rparr>] [])
          else
            (case dunder_module obj of
               Missing \<Rightarrow> Raise AttributeError
             | IsNone \<Rightarrow> Record k [] []
             | Str m \<Rightarrow>
                 (case map_of (sys_modules e) m of
                    None \<Rightarrow> Record k [] []
                  | Some md \<Rightarrow>
                     (if mod_key md \<in> insert k processed then Record k [] []
                      else (case is_local_module (cwd e) (mod_file md) of
                        Inl err \<Rightarrow> Raise err
                      | Inr loc \<Rightarrow>
                         (if \<not> loc then
                            Record k [\<lparr>name = nm, module = Some m, import_type = ''selective'',
                                       is_local = False, source = None, import_needed = None\<rparr>] []
                          else if is_typevar obj then
                            Record k [\<lparr>name = nm, module = Some m, import_type = ''selective'',
                                       is_local = True, source = Some [], import_needed = None\<rparr>] []
                          else (case getsource obj of
                            Inl err \<Rightarrow> Raise err
                          | Inr src \<Rightarrow>
                              Expand k \<lparr>name = nm, module = Some m, import_type = ''selective'',
                                        is_local = True, source = Some src, import_needed = None\<rparr>
                                md src)))))))))"

text \<open>
  The loop over \<^verbatim>\<open>context_globals.items()\<close>, with \<^verbatim>\<open>modules\<close>,
  \<^verbatim>\<open>variables\<close> and the shared set \<^verbatim>\<open>processed\<close> as its state. The fuel bounds the
  depth of the recursion; \<open>None\<close> is the run that exceeds it.
\<close>

fun scan :: "nat \<Rightarrow> env \<Rightarrow> (string \<times> pyobj) list \<Rightarrow> string \<Rightarrow> symbol_ref list \<Rightarrow> variable list
               \<Rightarrow> hashkey set \<Rightarrow> (error + symbol_ref list \<times> variable list \<times> hashkey set) option" where
  "scan fuel e [] fn_code modules variables processed = Some (Inr (modules, variables, processed))"
| "scan fuel e ((nm, obj) # items) fn_code modules variables processed =
     (case classify e nm obj fn_code processed of
        Skip \<Rightarrow> scan fuel e items fn_code modules variables processed
      | Raise err \<Rightarrow> Some (Inl err)
      | Record k ms vs \<Rightarrow>
          scan fuel e items fn_code (modules @ ms) (variables @ vs) (insert k processed)
      | Expand k obj_info md src \<Rightarrow>
          (case fuel of
             0 \<Rightarrow> None
           | Suc n \<Rightarrow>
               (case scan n e (mod_dict md) src [] [] (insert k processed) of
                  None \<Rightarrow> None
                | Some (Inl err) \<Rightarrow> Some (Inl err)
                | Some (Inr (new_modules, new_variables, processed')) \<Rightarrow>
                    scan fuel e items fn_code (modules @ new_modules @ [obj_info])
                      (variables @ new_variables) processed')))"

definition get_obj_dependencies :: "nat \<Rightarrow> env \<Rightarrow> (string \<times> pyobj) list \<Rightarrow> string \<Rightarrow> hashkey set
    \<Rightarrow> (error + symbol_ref list \<times> variable list \<times> hashkey set) option" where
  "get_obj_dependencies fuel e context_globals fn_code processed =
     scan fuel e context_globals fn_code [] [] processed"

section \<open>Ordering the local entries\<close>

text \<open>
  Modelled from the spec: \<^verbatim>\<open>extract_dependencies\<close> and \<^verbatim>\<open>sort_modules\<close> are
  imported from \<^verbatim>\<open>naptha_sdk.module_manager\<close>, which is not among the sources. The
  spec (4.4): for each local entry, the names of the other local entries that occur in
  its source text; then a stable topological sort by repeated selection of the first
  entry, in discovery order, none of whose dependencies is still waiting; an error when
  no entry can be selected. An entry without source text mentions no name.
\<close>

definition extract_dependencies :: "symbol_ref \<Rightarrow> symbol_ref list \<Rightarrow> string list" where
  "extract_dependencies md local_modules =
     (case source md of
        None \<Rightarrow> []
      | Some text \<Rightarrow>
          map name (filter (\<lambda>other. name other \<noteq> name md \<and> contains (name other) text)
                      local_modules))"

text \<open>
  Line 230 of scrape.py builds the graph as a dictionary keyed by name, one entry after
  the other: a later entry of the same name replaces the dependencies of an earlier one.
\<close>

definition module_dependencies :: "symbol_ref list \<Rightarrow> (string \<rightharpoonup> string list)" where
  "module_dependencies local_modules =
     fold (\<lambda>md graph. graph(name md \<mapsto> extract_dependencies md local_modules))
       local_modules Map.empty"

text \<open>Modelled from the spec: the dependencies the graph holds for a name.\<close>

definition graph_deps :: "(string \<rightharpoonup> string list) \<Rightarrow> string \<Rightarrow> string list" where
  "graph_deps graph n = (case graph n of None \<Rightarrow> [] | Some ds \<Rightarrow> ds)"

text \<open>
  Modelled from the spec: an entry can be emitted when no entry that is still waiting
  bears the name of one of its dependencies.
\<close>

definition ready :: "(string \<rightharpoonup> string list) \<Rightarrow> symbol_ref list \<Rightarrow> symbol_ref \<Rightarrow> bool" where
  "ready graph waiting md = list_all (\<lambda>d. d \<notin> set (map name waiting)) (graph_deps graph (name md))"

function sort_loop :: "(string \<rightharpoonup> string list) \<Rightarrow> symbol_ref list \<Rightarrow> symbol_ref list
    \<Rightarrow> error + symbol_ref list" where
  "sort_loop graph waiting emitted =
     (if waiting = [] then Inr emitted
      else (case find (ready graph waiting) waiting of
        None \<Rightarrow> Inl CyclicLocalDependency
      | Some md \<Rightarrow> sort_loop graph (remove1 md waiting) (emitted @ [md])))"
  by pat_completeness auto

lemma find_Some_mem: "find P xs = Some x \<Longrightarrow> x \<in> set xs"
  by (auto simp: find_Some_iff)

termination sort_loop
proof (relation "measure (\<lambda>(graph, waiting, emitted). length waiting)")
  show "wf (measure (\<lambda>(graph, waiting, emitted). length waiting))" by simp
next
  fix graph :: "string \<rightharpoonup> string list" and waiting emitted :: "symbol_ref list" and md
  assume "waiting \<noteq> []" and "find (ready graph waiting) waiting = Some md"
  then have "md \<in> set waiting" by (simp add: find_Some_mem)
  then have "length (remove1 md waiting) < length waiting"
    using length_pos_if_in_set [of md waiting] by (simp add: length_remove1)
  then show "((graph, remove1 md waiting, emitted @ [md]), (graph, waiting, emitted))
               \<in> measure (\<lambda>(graph, waiting, emitted). length waiting)"
    by simp
qed

declare sort_loop.simps [simp del]

definition sort_modules :: "symbol_ref list \<Rightarrow> (string \<rightharpoonup> string list) \<Rightarrow> error + symbol_ref list" where
  "sort_modules local_modules graph = sort_loop graph local_modules []"

section \<open>The bundle: \<^verbatim>\<open>scrape_func\<close>\<close>

definition newline :: string where
  "newline = [CHR 0x0A]"

definition dquote :: string where
  "dquote = [CHR 0x22]"

text \<open>The last component of a path: \<^verbatim>\<open>Path.cwd().name\<close>.\<close>

definition path_name :: "string \<Rightarrow> string" where
  "path_name p = rev (takeWhile (\<lambda>c. c \<noteq> CHR ''/'') (rev p))"

definition strip_decorators :: "string \<Rightarrow> string" where
  "strip_decorators text = join newline (filter (\<lambda>line. \<not> is_decorator_line line) (splitlines text))"

fun kw_text :: "string option \<Rightarrow> string" where
  "kw_text None = ''None''"
| "kw_text (Some kw) = kw"

text \<open>The keyword arguments of the line of a call, over \<^verbatim>\<open>zip(keywords, values)\<close>.\<close>

fun call_args :: "string option list \<Rightarrow> pyval list \<Rightarrow> string" where
  "call_args (kw # kws) (v # vs) =
     (if is_str v then kw_text kw @ ''='' @ dquote @ py_str v @ dquote @ '', ''
      else kw_text kw @ ''='' @ py_str v @ '', '') @ call_args kws vs"
| "call_args kws vs = []"

definition variable_info :: "string \<Rightarrow> string \<Rightarrow> string \<Rightarrow> symbol_ref" where
  "variable_info kind t text =
     \<lparr>name = t, module = None, import_type = kind, is_local = False,
      source = Some (t @ '' = '' @ text @ newline), import_needed = None\<rparr>"

text \<open>
  The body of the loop over \<^verbatim>\<open>used_variables\<close> (lines 168 to 226). Its state is
  the list \<^verbatim>\<open>modules\<close> and the local variable \<^verbatim>\<open>class_info\<close>, which is unbound
  (\<open>None\<close>) until a turn of the loop assigns it. Line 193 appends \<^verbatim>\<open>class_info\<close>
  for every constant, also in the turn that did not assign it.
\<close>

fun inline_variable :: "env \<Rightarrow> (string \<times> pyobj) list \<Rightarrow> variable
    \<Rightarrow> symbol_ref list \<times> symbol_ref option \<Rightarrow> error + symbol_ref list \<times> symbol_ref option" where
  "inline_variable e context_globals (ConstantVar t v) (modules, class_info) =
     (if is_str v \<and> endswith (py_str v) ''.yaml'' then
        (case files e (''src/'' @ path_name (cwd e) @ ''/'' @ py_str v) of
           Loads yaml_data \<Rightarrow>
             Inr (modules @ [variable_info ''variable'' t yaml_data],
                  Some (variable_info ''variable'' t yaml_data))
         | Fails err \<Rightarrow> Inl err
         | Absent \<Rightarrow>
             (case class_info of
                None \<Rightarrow> Inl UnboundLocalError
              | Some stale \<Rightarrow> Inr (modules @ [stale], class_info)))
      else Inr (modules @ [variable_info ''variable'' t (py_str v)],
                Some (variable_info ''variable'' t (py_str v))))"
| "inline_variable e context_globals (UnionVar t v) (modules, class_info) =
     Inr (modules @ [variable_info ''union'' t v], Some (variable_info ''union'' t v))"
| "inline_variable e context_globals (CallVar t cls_name kws) (modules, class_info) =
     (case map_of context_globals cls_name of
        None \<Rightarrow> Inr (modules, class_info)
      | Some var_class \<Rightarrow>
         (if \<not> is_class var_class then Inr (modules, class_info)
          else (case dunder_module var_class of
            Missing \<Rightarrow> Inl AttributeError
          | IsNone \<Rightarrow> Inl KeyError
          | Str m \<Rightarrow>
             (case map_of (sys_modules e) m of
                None \<Rightarrow> Inl KeyError
              | Some md \<Rightarrow>
                 (let line = t @ '' = '' @ cls_name @ ''(''
                        @ (case kws of None \<Rightarrow> [] | Some (ks, vs) \<Rightarrow> call_args ks vs)
                        @ '')'' @ newline;
                      info = \<lparr>name = cls_name, module = Some m, import_type = ''variable'',
                              is_local = False, source = Some line,
                              import_needed =
                                (if list_ex (\<lambda>md. name md = cls_name) modules then Some False
                                 else None)\<rparr>
                  in Inr (modules @ [info], Some info))))))"

fun inline_variables :: "env \<Rightarrow> (string \<times> pyobj) list \<Rightarrow> variable list
    \<Rightarrow> symbol_ref list \<times> symbol_ref option \<Rightarrow> error + symbol_ref list \<times> symbol_ref option" where
  "inline_variables e context_globals [] st = Inr st"
| "inline_variables e context_globals (used_variable # rest) st =
     (case inline_variable e context_globals used_variable st of
        Inl err \<Rightarrow> Inl err
      | Inr st' \<Rightarrow> inline_variables e context_globals rest st')"

text \<open>
  The argument \<^verbatim>\<open>func\<close>: its source (or the exception \<^verbatim>\<open>inspect.getsource\<close>
  raises), its \<^verbatim>\<open>__name__\<close>, and whether it is a function (with its
  \<^verbatim>\<open>__globals__\<close>), a class (with its \<^verbatim>\<open>__module__\<close>) or neither.
\<close>

datatype func_kind = IsFunction "(string \<times> pyobj) list" | IsClass string | NeitherKind

record func_obj =
  func_source :: "error + string"
  func_name :: string
  func_kind :: func_kind

text \<open>The tuple \<^verbatim>\<open>scrape_func\<close> returns.\<close>

record scrape_result =
  out_fn_code :: string
  out_fn_name :: string
  out_local_modules :: "symbol_ref list"
  out_selective_import_modules :: "symbol_ref list"
  out_standard_import_modules :: "symbol_ref list"
  out_variable_modules :: "symbol_ref list"
  out_union_modules :: "symbol_ref list"

text \<open>
  Lines 158 to 162: the globals the function sees. For an argument that is neither a
  function nor a class no branch binds \<^verbatim>\<open>context_globals\<close>, and line 164 raises.
\<close>

definition context_globals_of :: "env \<Rightarrow> func_obj \<Rightarrow> error + (string \<times> pyobj) list" where
  "context_globals_of e func =
     (case func_kind func of
        IsFunction globals \<Rightarrow> Inr globals
      | IsClass m \<Rightarrow> (case map_of (sys_modules e) m of None \<Rightarrow> Inl KeyError | Some md \<Rightarrow> Inr (mod_dict md))
      | NeitherKind \<Rightarrow> Inl UnboundLocalError)"

text \<open>Lines 228 to 237: the filter on the name, the sort of the local entries, the lists.\<close>

definition assemble :: "string \<Rightarrow> string \<Rightarrow> symbol_ref list \<Rightarrow> error + scrape_result" where
  "assemble code fname all_modules =
     (let modules = filter (\<lambda>md. name md \<noteq> ''logger'') all_modules;
          local_modules = filter is_local modules
      in (case sort_modules local_modules (module_dependencies local_modules) of
            Inl err \<Rightarrow> Inl err
          | Inr emitted \<Rightarrow>
              Inr \<lparr>out_fn_code = code, out_fn_name = fname, out_local_modules = emitted,
                   out_selective_import_modules =
                     filter (\<lambda>md. \<not> is_local md \<and> import_type md = ''selective'') modules,
                   out_standard_import_modules = filter (\<lambda>md. import_type md = ''standard'') modules,
                   out_variable_modules = filter (\<lambda>md. import_type md = ''variable'') modules,
                   out_union_modules = filter (\<lambda>md. import_type md = ''union'') modules\<rparr>))"

definition scrape_func :: "nat \<Rightarrow> env \<Rightarrow> func_obj \<Rightarrow> variable list \<Rightarrow> (error + scrape_result) option" where
  "scrape_func fuel e func variables =
     (case func_source func of
        Inl err \<Rightarrow> Some (Inl err)
      | Inr text \<Rightarrow>
         (let code = strip_decorators text;
              used_variables = filter (\<lambda>v. contains (target v) code) variables
          in (case context_globals_of e func of
                Inl err \<Rightarrow> Some (Inl err)
              | Inr context_globals \<Rightarrow>
                 (case get_obj_dependencies fuel e context_globals code {} of
                    None \<Rightarrow> None
                  | Some (Inl err) \<Rightarrow> Some (Inl err)
                  | Some (Inr (modules, new_variables, processed)) \<Rightarrow>
                     (case inline_variables e context_globals (used_variables @ new_variables)
                             (modules, None) of
                        Inl err \<Rightarrow> Some (Inl err)
                      | Inr (all_modules, class_info) \<Rightarrow>
                          Some (assemble code (func_name func) all_modules))))))"

section \<open>The dependency graph as a relation\<close>

text \<open>
  The edges of the graph over the local entries: an entry's name, paired with each
  dependency the graph holds for that name that is itself the name of a local entry.
\<close>

definition dep_edges :: "(string \<rightharpoonup> string list) \<Rightarrow> symbol_ref list \<Rightarrow> (string \<times> string) list" where
  "dep_edges graph ms =
     concat (map (\<lambda>md. map (\<lambda>d. (name md, d))
                          (filter (\<lambda>d. d \<in> set (map name ms)) (graph_deps graph (name md)))) ms)"

text \<open>
  The invariant of the sorting loop: no dependency of an emitted entry is the name of
  that entry, of an entry emitted after it, or of an entry that is still waiting.
\<close>

definition deps_placed :: "(string \<rightharpoonup> string list) \<Rightarrow> symbol_ref list \<Rightarrow> symbol_ref list \<Rightarrow> bool" where
  "deps_placed graph out rest =
     (\<forall>pre md post. out = pre @ md # post \<longrightarrow>
        (\<forall>d \<in> set (graph_deps graph (name md)). d \<notin> name ` set (md # post) \<and> d \<notin> name ` set rest))"

text \<open>
  The edges of the local dependency graph as the entries themselves give them: from an
  entry's name to the name of each other local entry that its source text mentions.
\<close>

definition mention_edges :: "symbol_ref list \<Rightarrow> (string \<times> string) list" where
  "mention_edges ms =
     concat (map (\<lambda>md. map (\<lambda>d. (name md, d)) (extract_dependencies md ms)) ms)"

section \<open>Example inputs\<close>

text \<open>The entry \<^verbatim>\<open>get_obj_dependencies\<close> records for a local function of module \<^verbatim>\<open>app\<close>.\<close>

definition local_entry :: "string \<Rightarrow> string \<Rightarrow> symbol_ref" where
  "local_entry n body =
     \<lparr>name = n, module = Some ''app'', import_type = ''selective'', is_local = True,
      source = Some body, import_needed = None\<rparr>"

section \<open>What the walk records\<close>

text \<open>
  The pairs of name and dictionary that the assignments of a list of nodes record, in
  the order of the list, and the dictionary \<^verbatim>\<open>unique_variables\<close> after storing a
  list of such pairs one after the other.
\<close>

fun target_assignment :: "expr \<Rightarrow> expr \<Rightarrow> (string \<times> variable) list" where
  "target_assignment v (Name t) = (case assign_data t v of Some d \<Rightarrow> [(t, d)] | None \<Rightarrow> [])"
| "target_assignment v tgt = []"

fun node_assignments :: "stmt \<Rightarrow> (string \<times> variable) list" where
  "node_assignments (Assign targets v) = concat (map (target_assignment v) targets)"
| "node_assignments node = []"

definition assignments :: "stmt list \<Rightarrow> (string \<times> variable) list" where
  "assignments nodes = concat (map node_assignments nodes)"

definition store_all :: "(string \<times> variable) list \<Rightarrow> (string \<times> variable) list \<Rightarrow> (string \<times> variable) list" where
  "store_all recs unique_variables = fold (\<lambda>(t, d). AList.update t d) recs unique_variables"

section \<open>Specification predicates for classification\<close>

text \<open>The entry recorded for a class that is a member of a union.\<close>

definition selective_external :: "string \<Rightarrow> string \<Rightarrow> symbol_ref" where
  "selective_external n m =
     \<lparr>name = n, module = Some m, import_type = ''selective'', is_local = False,
      source = None, import_needed = None\<rparr>"

text \<open>The members of \<^verbatim>\<open>obj.__args__\<close> that are classes, with name and module.\<close>

fun class_members :: "type_arg list \<Rightarrow> (string \<times> string) list" where
  "class_members [] = []"
| "class_members (ClassArg n m # args) = (n, m) # class_members args"
| "class_members (a # args) = class_members args"

text \<open>
  The bindings a run can look at: those of the scope it starts from and those of the
  globals of every loaded module.
\<close>

definition scanned_bindings :: "env \<Rightarrow> (string \<times> pyobj) list \<Rightarrow> (string \<times> pyobj) set" where
  "scanned_bindings e items = set items \<union> (\<Union>md \<in> snd ` set (sys_modules e). set (mod_dict md))"

text \<open>
  An entry takes its source from a binding: it bears the binding's name, and its source
  is empty for a type variable and the text \<^verbatim>\<open>inspect.getsource\<close> returned for
  any other object.
\<close>

definition sourced_from :: "(string \<times> pyobj) set \<Rightarrow> symbol_ref \<Rightarrow> bool" where
  "sourced_from B md =
     (\<exists>nm obj. (nm, obj) \<in> B \<and> name md = nm
        \<and> ((is_typevar obj \<and> source md = Some [])
           \<or> (\<not> is_typevar obj \<and> (\<exists>s. source md = Some s \<and> getsource obj = Inr s))))"

text \<open>
  What holds of a local entry: a whole-module import has no source key; a selective
  entry takes its source from a binding.
\<close>

definition local_entry_ok :: "(string \<times> pyobj) set \<Rightarrow> symbol_ref \<Rightarrow> bool" where
  "local_entry_ok B md =
     ((import_type md = ''standard'' \<and> source md = None)
      \<or> (import_type md = ''selective'' \<and> sourced_from B md))"

text \<open>The elements that the hashable objects of a set of bindings have in a Python set.\<close>

definition binding_keys :: "(string \<times> pyobj) set \<Rightarrow> hashkey set" where
  "binding_keys B = {k. \<exists>nm obj. (nm, obj) \<in> B \<and> hash_key obj = Some k}"

section \<open>Example objects and an example process\<close>

text \<open>
  Objects as Python has them: an object of no particular kind, to start from; a
  function and a class of a module, with the result of \<^verbatim>\<open>inspect.getsource\<close>; a type
  variable; a module object; a string; a list (unhashable); an instance of a class; a
  \<^verbatim>\<open>typing.Union\<close> alias.
\<close>

definition plain_obj :: pyobj where
  "plain_obj =
     \<lparr>hash_key = None, type_name = ''object'', dunder_args = None, literal_text = None,
      module_view = None, dunder_module = Missing, is_typevar = False, is_class = False,
      getsource = Inl TypeError\<rparr>"

definition function_obj :: "nat \<Rightarrow> string \<Rightarrow> error + string \<Rightarrow> pyobj" where
  "function_obj k m src =
     plain_obj\<lparr>hash_key := Some (KRef k), type_name := ''function'', dunder_module := Str m,
               getsource := src\<rparr>"

definition class_obj :: "nat \<Rightarrow> string \<Rightarrow> error + string \<Rightarrow> pyobj" where
  "class_obj k m src =
     plain_obj\<lparr>hash_key := Some (KRef k), type_name := ''type'', dunder_module := Str m,
               is_class := True, getsource := src\<rparr>"

definition typevar_obj :: "nat \<Rightarrow> string \<Rightarrow> pyobj" where
  "typevar_obj k m =
     plain_obj\<lparr>hash_key := Some (KRef k), type_name := ''TypeVar'', dunder_module := Str m,
               is_typevar := True\<rparr>"

definition module_obj :: "nat \<Rightarrow> string \<Rightarrow> attr \<Rightarrow> pyobj" where
  "module_obj k nm file =
     plain_obj\<lparr>hash_key := Some (KRef k), type_name := ''module'', module_view := Some (nm, file)\<rparr>"

definition str_obj :: "string \<Rightarrow> pyobj" where
  "str_obj s = plain_obj\<lparr>hash_key := Some (KStr s), type_name := ''str'', literal_text := Some s\<rparr>"

definition list_obj :: pyobj where
  "list_obj = plain_obj\<lparr>type_name := ''list''\<rparr>"

definition instance_obj :: "nat \<Rightarrow> string \<Rightarrow> string \<Rightarrow> pyobj" where
  "instance_obj k cls m =
     plain_obj\<lparr>hash_key := Some (KRef k), type_name := cls, dunder_module := Str m\<rparr>"

definition union_obj :: "nat \<Rightarrow> type_arg list \<Rightarrow> pyobj" where
  "union_obj k args =
     plain_obj\<lparr>hash_key := Some (KRef k), type_name := ''_UnionGenericAlias'',
               dunder_args := Some args, dunder_module := Str ''typing''\<rparr>"

definition squote :: string where
  "squote = [CHR 0x27]"

text \<open>
  A process in the project directory \<^verbatim>\<open>/home/u/proj\<close>: local modules (the first,
  \<^verbatim>\<open>helpers\<close>, with one function), the library module \<^verbatim>\<open>logging\<close>, and the
  one YAML file \<^verbatim>\<open>src/proj/settings.yaml\<close>, whose parsed contents print as
  \<^verbatim>\<open>{'x': 1}\<close>.
\<close>

definition helpers_module :: py_module where
  "helpers_module =
     \<lparr>mod_key = KRef 100, mod_file = Str ''/home/u/proj/helpers.py'',
      mod_dict = [(''fmt'', function_obj 1 ''helpers'' (Inr ''def fmt(x): return x''))]\<rparr>"

definition logging_module :: py_module where
  "logging_module =
     \<lparr>mod_key = KRef 101, mod_file = Str ''/usr/lib/python3/logging/__init__.py'', mod_dict = []\<rparr>"

text \<open>A second local module, with two functions that call each other.\<close>

definition pair_module :: py_module where
  "pair_module =
     \<lparr>mod_key = KRef 102, mod_file = Str ''/home/u/proj/pair.py'',
      mod_dict = [(''ping'', function_obj 3 ''pair'' (Inr ''def ping(): pong()'')),
                  (''pong'', function_obj 4 ''pair'' (Inr ''def pong(): ping()''))]\<rparr>"

text \<open>
  The entry module \<^verbatim>\<open>app\<close>: it imports \<^verbatim>\<open>show\<close> from a local module
  \<^verbatim>\<open>render\<close> and defines \<^verbatim>\<open>cfg\<close> and a \<^verbatim>\<open>fmt\<close> of its own;
  \<^verbatim>\<open>render\<close> has another \<^verbatim>\<open>fmt\<close>, whose parameter is called \<^verbatim>\<open>cfg\<close>.
\<close>

definition render_module :: py_module where
  "render_module =
     \<lparr>mod_key = KRef 103, mod_file = Str ''/home/u/proj/render.py'',
      mod_dict = [(''fmt'', function_obj 11 ''render'' (Inr ''def fmt(cfg): return cfg'')),
                  (''show'', function_obj 10 ''render'' (Inr ''def show(x): return fmt(x)''))]\<rparr>"

definition app_globals :: "(string \<times> pyobj) list" where
  "app_globals =
     [(''show'', function_obj 10 ''render'' (Inr ''def show(x): return fmt(x)'')),
      (''cfg'', function_obj 12 ''app'' (Inr ''def cfg(): return 1'')),
      (''fmt'', function_obj 13 ''app'' (Inr ''def fmt(x): return x''))]"

definition app_module :: py_module where
  "app_module =
     \<lparr>mod_key = KRef 104, mod_file = Str ''/home/u/proj/app.py'', mod_dict = app_globals\<rparr>"

text \<open>
  A local module \<^verbatim>\<open>loopy\<close> whose functions \<^verbatim>\<open>fmt\<close> and \<^verbatim>\<open>cfg\<close> call each
  other, and an entry module \<^verbatim>\<open>entry\<close> that imports \<^verbatim>\<open>cfg\<close> from it and
  defines a \<^verbatim>\<open>fmt\<close> of its own.
\<close>

definition loopy_module :: py_module where
  "loopy_module =
     \<lparr>mod_key = KRef 105, mod_file = Str ''/home/u/proj/loopy.py'',
      mod_dict = [(''fmt'', function_obj 21 ''loopy'' (Inr ''def fmt(x): return cfg(x)'')),
                  (''cfg'', function_obj 22 ''loopy'' (Inr ''def cfg(x): return fmt(x)''))]\<rparr>"

definition entry_globals :: "(string \<times> pyobj) list" where
  "entry_globals =
     [(''cfg'', function_obj 22 ''loopy'' (Inr ''def cfg(x): return fmt(x)'')),
      (''fmt'', function_obj 23 ''entry'' (Inr ''def fmt(x): return x''))]"

definition entry_module :: py_module where
  "entry_module =
     \<lparr>mod_key = KRef 106, mod_file = Str ''/home/u/proj/entry.py'', mod_dict = entry_globals\<rparr>"

definition example_env :: env where
  "example_env =
     \<lparr>cwd = ''/home/u/proj'',
      sys_modules = [(''helpers'', helpers_module), (''logging'', logging_module),
                     (''pair'', pair_module), (''render'', render_module), (''app'', app_module),
                     (''loopy'', loopy_module), (''entry'', entry_module)],
      files = (\<lambda>p. if p = ''src/proj/settings.yaml'' then Loads (''{'' @ squote @ ''x'' @ squote @ '': 1}'')
                    else Absent)\<rparr>"

text \<open>A local function entry of a given module.\<close>

definition local_function :: "string \<Rightarrow> string \<Rightarrow> string \<Rightarrow> symbol_ref" where
  "local_function n m body =
     \<lparr>name = n, module = Some m, import_type = ''selective'', is_local = True,
      source = Some body, import_needed = None\<rparr>"

text \<open>
  A function \<^verbatim>\<open>run\<close> under a decorator, with the given body line and globals.
\<close>

definition run_func :: "string \<Rightarrow> (string \<times> pyobj) list \<Rightarrow> func_obj" where
  "run_func body globals =
     \<lparr>func_source = Inr (''@task'' @ newline @ ''def run():'' @ newline @ body),
      func_name = ''run'', func_kind = IsFunction globals\<rparr>"

chapter \<open>Properties\<close>

section \<open>Unfolding the model on concrete inputs\<close>

lemmas obj_defs = plain_obj_def function_obj_def class_obj_def typevar_obj_def module_obj_def
  str_obj_def list_obj_def instance_obj_def union_obj_def
lemmas env_defs = example_env_def helpers_module_def logging_module_def pair_module_def
  render_module_def app_module_def app_globals_def loopy_module_def entry_module_def
  entry_globals_def
lemmas eval_defs = get_obj_dependencies_def classify_def is_local_module_def startswith_def
  endswith_def path_join_def union_value_def

lemmas scrape_defs = scrape_func_def run_func_def strip_decorators_def splitlines_def
  is_decorator_line_def is_space_def is_line_end_def strip_def newline_def context_globals_of_def assemble_def
  sort_modules_def sort_loop.simps module_dependencies_def extract_dependencies_def
  ready_def graph_deps_def variable_info_def path_name_def squote_def

section \<open>The sorter\<close>

lemma dep_edges_iff:
  "(n, d) \<in> set (dep_edges graph ms)
     \<longleftrightarrow> n \<in> name ` set ms \<and> d \<in> name ` set ms \<and> d \<in> set (graph_deps graph n)"
  by (auto simp: dep_edges_def)

lemma dep_edges_mono:
  assumes "set ws \<subseteq> set ms"
  shows "set (dep_edges graph ws) \<subseteq> set (dep_edges graph ms)"
proof
  fix p assume p: "p \<in> set (dep_edges graph ws)"
  obtain n d where "p = (n, d)" by (cases p)
  with p assms show "p \<in> set (dep_edges graph ms)"
    by (auto simp: dep_edges_iff)
qed

lemma ready_iff:
  "ready graph waiting md \<longleftrightarrow> (\<forall>d \<in> set (graph_deps graph (name md)). d \<notin> name ` set waiting)"
  by (simp add: ready_def list_all_iff)

lemma some_entry_ready:
  assumes acyc: "acyclic (set (dep_edges graph ms))"
    and sub: "set waiting \<subseteq> set ms"
    and ne: "waiting \<noteq> []"
  shows "\<exists>md \<in> set waiting. ready graph waiting md"
proof -
  let ?R = "set (dep_edges graph waiting)"
  have "acyclic ?R"
    using acyc dep_edges_mono [OF sub] by (rule acyclic_subset)
  then have wf: "wf (?R\<inverse>)"
    by (simp add: finite_acyclic_wf_converse)
  obtain w where w: "w \<in> set waiting" using ne by (cases waiting) auto
  then have "name w \<in> name ` set waiting" by simp
  with wf obtain n where n: "n \<in> name ` set waiting"
    and min: "\<And>d. (d, n) \<in> ?R\<inverse> \<Longrightarrow> d \<notin> name ` set waiting"
    by (rule wfE_min) blast
  from n obtain md where md: "md \<in> set waiting" "name md = n" by auto
  have "ready graph waiting md"
    unfolding ready_iff
  proof
    fix d assume d: "d \<in> set (graph_deps graph (name md))"
    show "d \<notin> name ` set waiting"
    proof
      assume dn: "d \<in> name ` set waiting"
      with d md n have "(n, d) \<in> ?R" by (simp add: dep_edges_iff)
      then have "(d, n) \<in> ?R\<inverse>" by simp
      from min [OF this] dn show False by simp
    qed
  qed
  with md show ?thesis by blast
qed

lemma sort_loop_succeeds:
  "acyclic (set (dep_edges graph ms)) \<Longrightarrow> set waiting \<subseteq> set ms
     \<Longrightarrow> \<exists>out. sort_loop graph waiting emitted = Inr out"
proof (induction graph waiting emitted rule: sort_loop.induct)
  case (1 graph waiting emitted)
  show ?case
  proof (cases "waiting = []")
    case True
    then show ?thesis by (simp add: sort_loop.simps)
  next
    case False
    from some_entry_ready [OF "1.prems" False]
    obtain md where "find (ready graph waiting) waiting = Some md"
      by (cases "find (ready graph waiting) waiting") (auto simp: find_None_iff)
    moreover have "set (remove1 md waiting) \<subseteq> set ms"
      using "1.prems"(2) set_remove1_subset [of md waiting] by blast
    ultimately show ?thesis
      using "1.IH" [OF False _ "1.prems"(1)] False
      by (subst sort_loop.simps) simp
  qed
qed

lemma sort_loop_mset:
  "sort_loop graph waiting emitted = Inr out \<Longrightarrow> mset out = mset emitted + mset waiting"
proof (induction graph waiting emitted rule: sort_loop.induct)
  case (1 graph waiting emitted)
  show ?case
  proof (cases "waiting = []")
    case True
    with "1.prems" show ?thesis by (simp add: sort_loop.simps)
  next
    case False
    with "1.prems" obtain md where f: "find (ready graph waiting) waiting = Some md"
      and r: "sort_loop graph (remove1 md waiting) (emitted @ [md]) = Inr out"
      by (subst (asm) sort_loop.simps) (auto split: option.splits)
    have "md \<in> set waiting" using f by (rule find_Some_mem)
    with "1.IH" [OF False f r] show ?thesis by simp
  qed
qed

lemma sort_loop_error:
  "sort_loop graph waiting emitted = Inl err \<Longrightarrow> err = CyclicLocalDependency"
proof (induction graph waiting emitted rule: sort_loop.induct)
  case (1 graph waiting emitted)
  show ?case
  proof (cases "waiting = []")
    case True
    with "1.prems" show ?thesis by (simp add: sort_loop.simps)
  next
    case False
    show ?thesis
    proof (cases "find (ready graph waiting) waiting")
      case None
      with "1.prems" False show ?thesis by (subst (asm) sort_loop.simps) simp
    next
      case (Some md)
      with "1.prems" False have "sort_loop graph (remove1 md waiting) (emitted @ [md]) = Inl err"
        by (subst (asm) sort_loop.simps) simp
      with "1.IH" [OF False Some] show ?thesis by simp
    qed
  qed
qed

lemma deps_placed_step:
  assumes inv: "deps_placed graph emitted waiting"
    and md: "md \<in> set waiting" and rdy: "ready graph waiting md"
  shows "deps_placed graph (emitted @ [md]) (remove1 md waiting)"
  unfolding deps_placed_def
proof (intro allI impI ballI)
  fix pre x post d
  assume split: "emitted @ [md] = pre @ x # post" and d: "d \<in> set (graph_deps graph (name x))"
  have sub: "set (remove1 md waiting) \<subseteq> set waiting" by (rule set_remove1_subset)
  show "d \<notin> name ` set (x # post) \<and> d \<notin> name ` set (remove1 md waiting)"
  proof (cases post rule: rev_cases)
    case Nil
    with split have "x = md" by simp
    with d rdy have "d \<notin> name ` set waiting" by (simp add: ready_iff)
    with md sub Nil \<open>x = md\<close> show ?thesis by auto
  next
    case (snoc post' y)
    with split have e: "emitted = pre @ x # post'" and "y = md" by auto
    from inv e d have "d \<notin> name ` set (x # post') \<and> d \<notin> name ` set waiting"
      unfolding deps_placed_def by blast
    with md sub snoc \<open>y = md\<close> show ?thesis by auto
  qed
qed

lemma sort_loop_placed:
  "sort_loop graph waiting emitted = Inr out \<Longrightarrow> deps_placed graph emitted waiting
     \<Longrightarrow> deps_placed graph out []"
proof (induction graph waiting emitted rule: sort_loop.induct)
  case (1 graph waiting emitted)
  show ?case
  proof (cases "waiting = []")
    case True
    with "1.prems" show ?thesis by (simp add: sort_loop.simps)
  next
    case False
    with "1.prems" obtain md where f: "find (ready graph waiting) waiting = Some md"
      and r: "sort_loop graph (remove1 md waiting) (emitted @ [md]) = Inr out"
      by (subst (asm) sort_loop.simps) (auto split: option.splits)
    have "md \<in> set waiting" using f by (rule find_Some_mem)
    moreover have "ready graph waiting md" using f by (auto simp: find_Some_iff)
    ultimately have "deps_placed graph (emitted @ [md]) (remove1 md waiting)"
      using "1.prems"(2) by (intro deps_placed_step)
    with "1.IH" [OF False f r] show ?thesis by simp
  qed
qed

lemma deps_placed_index:
  assumes pl: "deps_placed graph out []"
    and i: "i < length out" and j: "j < length out"
    and dep: "name (out ! j) \<in> set (graph_deps graph (name (out ! i)))"
  shows "j < i"
proof (rule ccontr)
  assume "\<not> j < i"
  then have ij: "i \<le> j" by simp
  have split: "out = take i out @ out ! i # drop (Suc i) out"
    using i by (simp add: id_take_nth_drop)
  have "drop i out ! (j - i) = out ! j" and "j - i < length (drop i out)"
    using ij j by simp_all
  then have "out ! j \<in> set (drop i out)"
    by (metis nth_mem)
  then have "out ! j \<in> set (out ! i # drop (Suc i) out)"
    using i by (simp add: Cons_nth_drop_Suc)
  moreover from pl split dep have "name (out ! j) \<notin> name ` set (out ! i # drop (Suc i) out)"
    unfolding deps_placed_def by blast
  ultimately show False by blast
qed


lemma placed_acyclic:
  assumes pl: "deps_placed graph out []" and same: "set out = set ms"
  shows "acyclic (set (dep_edges graph ms))"
proof (rule acyclicI_order)
  fix n d
  let ?f = "\<lambda>n. length (takeWhile (\<lambda>md. name md \<noteq> n) out)"
  assume "(n, d) \<in> set (dep_edges graph ms)"
  then have n: "n \<in> name ` set out" and d: "d \<in> name ` set out"
    and dep: "d \<in> set (graph_deps graph n)"
    using same by (simp_all add: dep_edges_iff)
  from n have "\<exists>x \<in> set out. name x = n" by auto
  from split_list_first_prop [OF this]
  obtain pre x post where split: "out = pre @ x # post" and x: "name x = n"
    and pre: "\<forall>y \<in> set pre. name y \<noteq> n"
    by blast
  have fn: "?f n = length pre"
    using split x pre by simp
  from pl split dep x have "d \<notin> name ` set (x # post)"
    unfolding deps_placed_def by blast
  with d split obtain y where y: "y \<in> set pre" "name y = d" by auto
  then have "takeWhile (\<lambda>md. name md \<noteq> d) out = takeWhile (\<lambda>md. name md \<noteq> d) pre"
    using split by simp
  moreover have "length (takeWhile (\<lambda>md. name md \<noteq> d) pre) < length pre"
  proof (rule ccontr)
    assume "\<not> length (takeWhile (\<lambda>md. name md \<noteq> d) pre) < length pre"
    then have "length (takeWhile (\<lambda>md. name md \<noteq> d) pre) = length pre"
      using length_takeWhile_le [of "\<lambda>md. name md \<noteq> d" pre] by simp
    then have "takeWhile (\<lambda>md. name md \<noteq> d) pre = pre"
      by (metis append_eq_conv_conj takeWhile_dropWhile_id append_Nil2)
    then have "\<forall>y \<in> set pre. name y \<noteq> d" by (simp only: takeWhile_eq_all_conv)
    with y show False by blast
  qed
  ultimately show "?f d < ?f n" using fn by simp
qed

lemma find_append_cases:
  "find P (xs @ ys) = (case find P xs of None \<Rightarrow> find P ys | Some x \<Rightarrow> Some x)"
  by (induction xs) auto

lemma fold_graph_lookup:
  "fold (\<lambda>md graph. graph(name md \<mapsto> f md)) xs g0 n
     = (case find (\<lambda>md. name md = n) (rev xs) of None \<Rightarrow> g0 n | Some md \<Rightarrow> Some (f md))"
  by (induction xs arbitrary: g0) (auto simp: find_append_cases split: option.splits)

lemma find_unique_name:
  assumes "distinct (map name xs)" and "md \<in> set xs"
  shows "find (\<lambda>x. name x = name md) (rev xs) = Some md"
proof -
  have "\<exists>x. find (\<lambda>x. name x = name md) (rev xs) = Some x"
    using assms(2) by (cases "find (\<lambda>x. name x = name md) (rev xs)") (auto simp: find_None_iff)
  then obtain x where x: "find (\<lambda>x. name x = name md) (rev xs) = Some x" ..
  then have "x \<in> set xs" "name x = name md"
    using find_Some_mem [OF x] by (auto simp: find_Some_iff)
  with assms have "x = md" by (auto simp: distinct_map inj_on_def)
  with x show ?thesis by simp
qed

lemma module_dependencies_lookup:
  assumes "distinct (map name ms)" and "md \<in> set ms"
  shows "graph_deps (module_dependencies ms) (name md) = extract_dependencies md ms"
  using find_unique_name [OF assms]
  by (simp add: graph_deps_def module_dependencies_def fold_graph_lookup)

lemma acyclic_no_edges: "acyclic {}"
  by (simp add: acyclic_def)

text \<open>
  Claim C1, as amended. When the names of the local entries are pairwise distinct and the
  graph that line 230 builds over them has no cycle, the sorter returns an order of
  exactly these entries in which every entry stands after each other entry whose name
  occurs in its source text.
\<close>

theorem sort_modules_topological_order:
  assumes dist: "distinct (map name local_modules)"
    and acyc: "acyclic (set (dep_edges (module_dependencies local_modules) local_modules))"
  shows "\<exists>out. sort_modules local_modules (module_dependencies local_modules) = Inr out
           \<and> mset out = mset local_modules
           \<and> (\<forall>i j. i < length out \<and> j < length out \<and> i \<noteq> j
                  \<and> (\<exists>text. source (out ! i) = Some text \<and> contains (name (out ! j)) text)
                \<longrightarrow> j < i)"
proof -
  let ?g = "module_dependencies local_modules"
  obtain out where out: "sort_loop ?g local_modules [] = Inr out"
    using sort_loop_succeeds [OF acyc subset_refl] by blast
  have ms: "mset out = mset local_modules"
    using sort_loop_mset [OF out] by simp
  then have sets: "set out = set local_modules" by (metis set_mset_mset)
  have dout: "distinct (map name out)"
    using dist ms by (metis distinct_map mset_eq_imp_distinct_iff set_mset_mset)
  have "deps_placed ?g [] local_modules" by (simp add: deps_placed_def)
  then have pl: "deps_placed ?g out []" using out by (rule sort_loop_placed [rotated])
  have "j < i" if i: "i < length out" and j: "j < length out" and ne: "i \<noteq> j"
    and src: "source (out ! i) = Some body" and occ: "contains (name (out ! j)) body"
    for i j body
  proof -
    have names: "name (out ! j) \<noteq> name (out ! i)"
      using dout i j ne by (metis distinct_conv_nth length_map nth_map)
    have mem: "out ! i \<in> set local_modules" "out ! j \<in> set local_modules"
      using i j sets by (metis nth_mem)+
    then have "name (out ! j) \<in> set (extract_dependencies (out ! i) local_modules)"
      using src occ names by (auto simp: extract_dependencies_def)
    then have "name (out ! j) \<in> set (graph_deps ?g (name (out ! i)))"
      using module_dependencies_lookup [OF dist mem(1)] by simp
    with pl i j show ?thesis by (rule deps_placed_index)
  qed
  with out ms show ?thesis unfolding sort_modules_def by blast
qed

theorem sort_modules_topological_order_witness:
  "distinct (map name [local_entry ''f'' ''g()'', local_entry ''g'' ''pass''])
   \<and> acyclic (set (dep_edges
         (module_dependencies [local_entry ''f'' ''g()'', local_entry ''g'' ''pass''])
         [local_entry ''f'' ''g()'', local_entry ''g'' ''pass'']))
   \<and> sort_modules [local_entry ''f'' ''g()'', local_entry ''g'' ''pass'']
         (module_dependencies [local_entry ''f'' ''g()'', local_entry ''g'' ''pass''])
       = Inr [local_entry ''g'' ''pass'', local_entry ''f'' ''g()'']
   \<and> (\<exists>out. sort_modules [local_entry ''f'' ''g()'', local_entry ''g'' ''pass'']
                (module_dependencies [local_entry ''f'' ''g()'', local_entry ''g'' ''pass''])
              = Inr out
            \<and> mset out = mset [local_entry ''f'' ''g()'', local_entry ''g'' ''pass'']
            \<and> (\<forall>i j. i < length out \<and> j < length out \<and> i \<noteq> j
                   \<and> (\<exists>text. source (out ! i) = Some text \<and> contains (name (out ! j)) text)
                 \<longrightarrow> j < i))"
proof -
  let ?ms = "[local_entry ''f'' ''g()'', local_entry ''g'' ''pass'']"
  have d: "distinct (map name ?ms)"
    by (simp add: local_entry_def)
  have a: "acyclic (set (dep_edges (module_dependencies ?ms) ?ms))"
    by (simp add: dep_edges_def graph_deps_def module_dependencies_def extract_dependencies_def
          local_entry_def acyclic_no_edges)
  have r: "sort_modules ?ms (module_dependencies ?ms)
             = Inr [local_entry ''g'' ''pass'', local_entry ''f'' ''g()'']"
    by (simp add: sort_modules_def sort_loop.simps ready_def graph_deps_def
          module_dependencies_def extract_dependencies_def local_entry_def)
  from d a r sort_modules_topological_order [OF d a] show ?thesis by blast
qed

text \<open>
  Claim C1 as stated fails when two local entries bear one name: the dictionary of line
  230 keeps the dependencies of the later one for both. Here \<^verbatim>\<open>run\<close> of module
  \<^verbatim>\<open>app\<close> uses \<^verbatim>\<open>show\<close> of module \<^verbatim>\<open>render\<close>, which brings in
  \<^verbatim>\<open>render.fmt\<close>, and \<^verbatim>\<open>cfg\<close> and \<^verbatim>\<open>fmt\<close> of \<^verbatim>\<open>app\<close>. The graph
  has the one edge from \<^verbatim>\<open>show\<close> to \<^verbatim>\<open>fmt\<close> and no cycle, and
  \<^verbatim>\<open>render.fmt\<close>, whose source text mentions \<^verbatim>\<open>cfg\<close>, is emitted before
  \<^verbatim>\<open>cfg\<close>.
\<close>

theorem sort_modules_duplicate_names_counterexample:
  "get_obj_dependencies 2 example_env app_globals
      (''def run():'' @ newline @ '' show(cfg()); fmt(1)'') {}
     = Some (Inr ([local_function ''fmt'' ''render'' ''def fmt(cfg): return cfg'',
                   local_function ''show'' ''render'' ''def show(x): return fmt(x)'',
                   local_function ''cfg'' ''app'' ''def cfg(): return 1'',
                   local_function ''fmt'' ''app'' ''def fmt(x): return x''], [],
                  {KRef 13, KRef 12, KRef 11, KRef 10}))
   \<and> acyclic (set (dep_edges
        (module_dependencies
           [local_function ''fmt'' ''render'' ''def fmt(cfg): return cfg'',
            local_function ''show'' ''render'' ''def show(x): return fmt(x)'',
            local_function ''cfg'' ''app'' ''def cfg(): return 1'',
            local_function ''fmt'' ''app'' ''def fmt(x): return x''])
        [local_function ''fmt'' ''render'' ''def fmt(cfg): return cfg'',
         local_function ''show'' ''render'' ''def show(x): return fmt(x)'',
         local_function ''cfg'' ''app'' ''def cfg(): return 1'',
         local_function ''fmt'' ''app'' ''def fmt(x): return x'']))
   \<and> scrape_func 2 example_env (run_func '' show(cfg()); fmt(1)'' app_globals) []
     = Some (Inr \<lparr>out_fn_code = ''def run():'' @ newline @ '' show(cfg()); fmt(1)'',
                out_fn_name = ''run'',
                out_local_modules =
                  [local_function ''fmt'' ''render'' ''def fmt(cfg): return cfg'',
                   local_function ''cfg'' ''app'' ''def cfg(): return 1'',
                   local_function ''fmt'' ''app'' ''def fmt(x): return x'',
                   local_function ''show'' ''render'' ''def show(x): return fmt(x)''],
                out_selective_import_modules = [], out_standard_import_modules = [],
                out_variable_modules = [], out_union_modules = []\<rparr>)
   \<and> contains ''cfg'' ''def fmt(cfg): return cfg''"
proof -
  have e: "dep_edges
        (module_dependencies
           [local_function ''fmt'' ''render'' ''def fmt(cfg): return cfg'',
            local_function ''show'' ''render'' ''def show(x): return fmt(x)'',
            local_function ''cfg'' ''app'' ''def cfg(): return 1'',
            local_function ''fmt'' ''app'' ''def fmt(x): return x''])
        [local_function ''fmt'' ''render'' ''def fmt(cfg): return cfg'',
         local_function ''show'' ''render'' ''def show(x): return fmt(x)'',
         local_function ''cfg'' ''app'' ''def cfg(): return 1'',
         local_function ''fmt'' ''app'' ''def fmt(x): return x''] = [(''show'', ''fmt''), (''show'', ''fmt'')]"
    by (simp add: dep_edges_def graph_deps_def module_dependencies_def extract_dependencies_def
          local_function_def)
  have a: "acyclic (set [(''show'', ''fmt''), (''show'', ''fmt'')])"
    by (simp add: acyclic_no_edges)
  show ?thesis
    unfolding e using a
    by (simp add: scrape_defs eval_defs obj_defs env_defs local_function_def)
qed

lemma sort_modules_cyclic_graph:
  assumes "\<not> acyclic (set (dep_edges graph local_modules))"
  shows "sort_modules local_modules graph = Inl CyclicLocalDependency"
proof (cases "sort_loop graph local_modules []")
  case (Inl err)
  then show ?thesis using sort_loop_error [OF Inl] by (simp add: sort_modules_def)
next
  case (Inr out)
  have "deps_placed graph [] local_modules" by (simp add: deps_placed_def)
  then have pl: "deps_placed graph out []" using Inr by (rule sort_loop_placed [rotated])
  have "mset out = mset local_modules" using sort_loop_mset [OF Inr] by simp
  then have "set out = set local_modules" by (metis set_mset_mset)
  with pl have "acyclic (set (dep_edges graph local_modules))" by (rule placed_acyclic)
  with assms show ?thesis by simp
qed

lemma extract_dependencies_names:
  "d \<in> set (extract_dependencies md ms) \<Longrightarrow> d \<in> name ` set ms"
  by (auto simp: extract_dependencies_def split: option.splits)

lemma mention_edges_iff:
  "(n, d) \<in> set (mention_edges ms)
     \<longleftrightarrow> (\<exists>md \<in> set ms. name md = n \<and> d \<in> set (extract_dependencies md ms))"
  by (auto simp: mention_edges_def)

lemma mention_edges_graph:
  assumes "distinct (map name ms)"
  shows "set (mention_edges ms) = set (dep_edges (module_dependencies ms) ms)"
proof (rule set_eqI)
  fix p :: "string \<times> string"
  obtain n d where p: "p = (n, d)" by (cases p)
  show "p \<in> set (mention_edges ms) \<longleftrightarrow> p \<in> set (dep_edges (module_dependencies ms) ms)"
  proof
    assume "p \<in> set (mention_edges ms)"
    then obtain md where md: "md \<in> set ms" "name md = n"
      and d: "d \<in> set (extract_dependencies md ms)"
      by (auto simp: p mention_edges_iff)
    from d have "d \<in> name ` set ms" by (rule extract_dependencies_names)
    moreover from d have "d \<in> set (graph_deps (module_dependencies ms) n)"
      using module_dependencies_lookup [OF assms md(1)] md(2) by simp
    ultimately show "p \<in> set (dep_edges (module_dependencies ms) ms)"
      using md by (auto simp: p dep_edges_iff)
  next
    assume "p \<in> set (dep_edges (module_dependencies ms) ms)"
    then have "n \<in> name ` set ms" and d: "d \<in> set (graph_deps (module_dependencies ms) n)"
      by (simp_all add: p dep_edges_iff)
    then obtain md where md: "md \<in> set ms" "name md = n" by auto
    from d have "d \<in> set (extract_dependencies md ms)"
      using module_dependencies_lookup [OF assms md(1)] md(2) by simp
    with md show "p \<in> set (mention_edges ms)"
      by (auto simp: p mention_edges_iff)
  qed
qed

text \<open>
  Claim C2, as amended. When the names of the local entries are pairwise distinct and
  the entries mention each other in a cycle, the sorter, a total function, returns the
  error \<open>CyclicLocalDependency\<close> and no list, and the last part of
  \<^verbatim>\<open>scrape_func\<close>, which calls it on the local entries and their graph, hands the
  error on to its caller.
\<close>

theorem sort_modules_reports_cycle:
  assumes "distinct (map name local_modules)"
    and "\<not> acyclic (set (mention_edges local_modules))"
  shows "sort_modules local_modules (module_dependencies local_modules) = Inl CyclicLocalDependency
         \<and> (\<forall>code fname all_modules.
               filter is_local (filter (\<lambda>md. name md \<noteq> ''logger'') all_modules) = local_modules
               \<longrightarrow> assemble code fname all_modules = Inl CyclicLocalDependency)"
proof -
  have "\<not> acyclic (set (dep_edges (module_dependencies local_modules) local_modules))"
    using assms by (simp add: mention_edges_graph)
  then have "sort_modules local_modules (module_dependencies local_modules)
               = Inl CyclicLocalDependency"
    by (rule sort_modules_cyclic_graph)
  then show ?thesis by (auto simp: assemble_def Let_def)
qed

theorem sort_modules_reports_cycle_witness:
  "distinct (map name [local_entry ''f'' ''g()'', local_entry ''g'' ''f()''])
   \<and> \<not> acyclic (set (mention_edges [local_entry ''f'' ''g()'', local_entry ''g'' ''f()'']))
   \<and> sort_modules [local_entry ''f'' ''g()'', local_entry ''g'' ''f()'']
        (module_dependencies [local_entry ''f'' ''g()'', local_entry ''g'' ''f()''])
       = Inl CyclicLocalDependency
   \<and> assemble ''f()'' ''run'' [local_entry ''f'' ''g()'', local_entry ''g'' ''f()'']
       = Inl CyclicLocalDependency
   \<and> scrape_func 2 example_env
        (run_func '' ping()'' [(''ping'', function_obj 3 ''pair'' (Inr ''def ping(): pong()''))]) []
       = Some (Inl CyclicLocalDependency)"
proof -
  let ?ms = "[local_entry ''f'' ''g()'', local_entry ''g'' ''f()'']"
  have d: "distinct (map name ?ms)" by (simp add: local_entry_def)
  have edges: "mention_edges ?ms = [(''f'', ''g''), (''g'', ''f'')]"
    by (simp add: mention_edges_def extract_dependencies_def local_entry_def)
  have "(''f'', ''f'') \<in> (set (mention_edges ?ms))\<^sup>+"
    unfolding edges by (rule trancl_into_trancl [of _ "''g''"]) auto
  then have c: "\<not> acyclic (set (mention_edges ?ms))"
    by (auto simp: acyclic_def)
  have f: "filter is_local (filter (\<lambda>md. name md \<noteq> ''logger'') ?ms) = ?ms"
    by (simp add: local_entry_def)
  have s: "scrape_func 2 example_env
        (run_func '' ping()'' [(''ping'', function_obj 3 ''pair'' (Inr ''def ping(): pong()''))]) []
       = Some (Inl CyclicLocalDependency)"
    by (simp add: scrape_defs eval_defs obj_defs env_defs)
  from sort_modules_reports_cycle [OF d c] f d c s show ?thesis by blast
qed

text \<open>
  Claim C2 as stated fails when a third entry bears the name of one of the two: in
  module \<^verbatim>\<open>loopy\<close> the functions \<^verbatim>\<open>fmt\<close> and \<^verbatim>\<open>cfg\<close> mention each other,
  and the entry module has a \<^verbatim>\<open>fmt\<close> of its own, recorded last. The dictionary of
  line 230 keeps the dependencies of that last \<^verbatim>\<open>fmt\<close>, which are none, so that the
  sorter sees no cycle and \<^verbatim>\<open>scrape_func\<close> returns a bundle and no error.
\<close>

theorem masked_cycle_counterexample:
  "get_obj_dependencies 2 example_env entry_globals
      (''def run():'' @ newline @ '' cfg(fmt(1))'') {}
     = Some (Inr ([local_function ''fmt'' ''loopy'' ''def fmt(x): return cfg(x)'',
                   local_function ''cfg'' ''loopy'' ''def cfg(x): return fmt(x)'',
                   local_function ''fmt'' ''entry'' ''def fmt(x): return x''], [],
                  {KRef 23, KRef 21, KRef 22}))
   \<and> \<not> acyclic (set (mention_edges
          [local_function ''fmt'' ''loopy'' ''def fmt(x): return cfg(x)'',
           local_function ''cfg'' ''loopy'' ''def cfg(x): return fmt(x)'',
           local_function ''fmt'' ''entry'' ''def fmt(x): return x'']))
   \<and> scrape_func 2 example_env (run_func '' cfg(fmt(1))'' entry_globals) []
     = Some (Inr \<lparr>out_fn_code = ''def run():'' @ newline @ '' cfg(fmt(1))'',
                out_fn_name = ''run'',
                out_local_modules =
                  [local_function ''fmt'' ''loopy'' ''def fmt(x): return cfg(x)'',
                   local_function ''fmt'' ''entry'' ''def fmt(x): return x'',
                   local_function ''cfg'' ''loopy'' ''def cfg(x): return fmt(x)''],
                out_selective_import_modules = [], out_standard_import_modules = [],
                out_variable_modules = [], out_union_modules = []\<rparr>)"
proof -
  let ?ms = "[local_function ''fmt'' ''loopy'' ''def fmt(x): return cfg(x)'',
              local_function ''cfg'' ''loopy'' ''def cfg(x): return fmt(x)'',
              local_function ''fmt'' ''entry'' ''def fmt(x): return x'']"
  have edges: "mention_edges ?ms = [(''fmt'', ''cfg''), (''cfg'', ''fmt''), (''cfg'', ''fmt'')]"
    by (simp add: mention_edges_def extract_dependencies_def local_function_def)
  have "(''fmt'', ''fmt'') \<in> (set (mention_edges ?ms))\<^sup>+"
    unfolding edges by (rule trancl_into_trancl [of _ "''cfg''"]) auto
  then have c: "\<not> acyclic (set (mention_edges ?ms))"
    by (auto simp: acyclic_def)
  have g: "get_obj_dependencies 2 example_env entry_globals
      (''def run():'' @ newline @ '' cfg(fmt(1))'') {}
     = Some (Inr (?ms, [], {KRef 23, KRef 21, KRef 22}))"
    by (simp add: eval_defs obj_defs env_defs local_function_def newline_def)
  have r: "scrape_func 2 example_env (run_func '' cfg(fmt(1))'' entry_globals) []
     = Some (Inr \<lparr>out_fn_code = ''def run():'' @ newline @ '' cfg(fmt(1))'',
                out_fn_name = ''run'',
                out_local_modules =
                  [local_function ''fmt'' ''loopy'' ''def fmt(x): return cfg(x)'',
                   local_function ''fmt'' ''entry'' ''def fmt(x): return x'',
                   local_function ''cfg'' ''loopy'' ''def cfg(x): return fmt(x)''],
                out_selective_import_modules = [], out_standard_import_modules = [],
                out_variable_modules = [], out_union_modules = []\<rparr>)"
    by (simp add: scrape_defs eval_defs obj_defs env_defs local_function_def)
  from c g r show ?thesis by blast
qed

section \<open>The entry-file scanner\<close>

lemma store_all_append: "store_all (xs @ ys) uv = store_all ys (store_all xs uv)"
  by (simp add: store_all_def)

lemma visit_target_store: "visit_target v tgt uv = store_all (target_assignment v tgt) uv"
  by (cases tgt) (auto simp: store_all_def split: option.splits)

lemma fold_visit_target:
  "fold (visit_target v) targets uv = store_all (concat (map (target_assignment v) targets)) uv"
  by (induction targets arbitrary: uv) (simp_all add: store_all_append visit_target_store, simp add: store_all_def)

lemma visit_node_store: "visit_node node uv = store_all (node_assignments node) uv"
  by (cases node) (simp_all add: fold_visit_target, simp_all add: store_all_def)

lemma fold_visit_node: "fold visit_node nodes uv = store_all (assignments nodes) uv"
  by (induction nodes arbitrary: uv)
     (simp_all add: assignments_def store_all_append visit_node_store, simp add: store_all_def)

lemma store_all_distinct: "distinct (map fst uv) \<Longrightarrow> distinct (map fst (store_all recs uv))"
  by (induction recs arbitrary: uv) (auto simp: store_all_def AList.distinct_update)

lemma store_all_map_of:
  "map_of (store_all recs uv) k
     = (case map_of (rev recs) k of Some d \<Rightarrow> Some d | None \<Rightarrow> map_of uv k)"
proof (induction recs arbitrary: uv)
  case Nil
  then show ?case by (simp add: store_all_def)
next
  case (Cons r recs)
  obtain t d where r: "r = (t, d)" by (cases r)
  have "store_all (r # recs) uv = store_all recs (AList.update t d uv)"
    by (simp add: store_all_def r)
  then show ?case
    by (simp add: Cons.IH r update_conv map_add_def split: option.splits)
qed

lemma assign_data_target: "assign_data t v = Some d \<Longrightarrow> target d = t"
  by (induction t v rule: assign_data.induct) auto

lemma assignments_target: "(t, d) \<in> set (assignments nodes) \<Longrightarrow> target d = t"
proof -
  have ta: "(t, d) \<in> set (target_assignment v tgt) \<Longrightarrow> target d = t" for v tgt
    by (cases tgt) (auto split: option.splits dest: assign_data_target [OF sym])
  have na: "(t, d) \<in> set (node_assignments node) \<Longrightarrow> target d = t" for node
    by (cases node) (auto dest: ta)
  show "(t, d) \<in> set (assignments nodes) \<Longrightarrow> target d = t"
    by (auto simp: assignments_def dest: na)
qed

lemma walk_contains_todo: "set todo \<subseteq> set (walk todo)"
  by (induction todo rule: walk.induct) auto

lemma walk_closed:
  "node \<in> set (walk todo) \<Longrightarrow> set (iter_child_nodes node) \<subseteq> set (walk todo)"
proof (induction todo rule: walk.induct)
  case 1
  then show ?case by simp
next
  case (2 n todo)
  show ?case
  proof (cases "node = n")
    case True
    have "set (iter_child_nodes n) \<subseteq> set (todo @ iter_child_nodes n)" by simp
    also have "\<dots> \<subseteq> set (walk (todo @ iter_child_nodes n))" by (rule walk_contains_todo)
    finally show ?thesis using True by auto
  next
    case False
    with "2.prems" have "node \<in> set (walk (todo @ iter_child_nodes n))" by simp
    from "2.IH" [OF this] show ?thesis by auto
  qed
qed

text \<open>
  Claim C9, as amended. \<^verbatim>\<open>scrape_init\<close> records the constant and call assignments
  of every statement the breadth-first walk reaches, and the walk reaches the statements
  of the module body and, with every statement, the statements nested in it (the bodies
  of functions and classes included). The result holds one dictionary per recorded name:
  the one recorded last in walk order.
\<close>

theorem scrape_init_walks_whole_tree:
  "distinct (map target (scrape_init body))
   \<and> (\<forall>v. v \<in> set (scrape_init body)
          \<longleftrightarrow> map_of (rev (assignments (walk body))) (target v) = Some v)
   \<and> set body \<subseteq> set (walk body)
   \<and> (\<forall>node \<in> set (walk body). set (iter_child_nodes node) \<subseteq> set (walk body))"
proof -
  let ?recs = "assignments (walk body)"
  let ?al = "store_all ?recs []"
  have si: "scrape_init body = map snd ?al"
    by (simp add: scrape_init_def fold_visit_node)
  have dist: "distinct (map fst ?al)"
    by (rule store_all_distinct) simp
  have look: "map_of ?al k = map_of (rev ?recs) k" for k
    by (simp add: store_all_map_of split: option.splits)
  have key: "target d = t" if "(t, d) \<in> set ?al" for t d
  proof -
    from that dist have "map_of ?al t = Some d" by simp
    then have "map_of (rev ?recs) t = Some d" by (simp add: look)
    then have "(t, d) \<in> set ?recs" by (auto dest: map_of_SomeD)
    then show ?thesis by (rule assignments_target)
  qed
  then have fst_eq: "map fst ?al = map (\<lambda>p. target (snd p)) ?al"
    by (intro map_cong) auto
  have a: "distinct (map target (scrape_init body))"
    using dist by (simp add: si fst_eq o_def)
  have b: "v \<in> set (scrape_init body) \<longleftrightarrow> map_of (rev ?recs) (target v) = Some v" for v
  proof
    assume "v \<in> set (scrape_init body)"
    then obtain t where "(t, v) \<in> set ?al" by (auto simp: si)
    moreover from this have "target v = t" by (rule key)
    ultimately show "map_of (rev ?recs) (target v) = Some v"
      using dist by (simp add: look [symmetric])
  next
    assume "map_of (rev ?recs) (target v) = Some v"
    then have "map_of ?al (target v) = Some v" by (simp add: look)
    then have "(target v, v) \<in> set ?al" by (rule map_of_SomeD)
    then show "v \<in> set (scrape_init body)" by (force simp: si)
  qed
  from a b walk_contains_todo [of body] walk_closed [of _ body] show ?thesis by blast
qed

theorem scrape_init_walks_whole_tree_witness:
  "scrape_init [Assign [Name ''threshold''] (Constant (PyInt 1)),
                Assign [Name ''threshold''] (Constant (PyInt 2))]
     = [ConstantVar ''threshold'' (PyInt 2)]
   \<and> distinct (map target (scrape_init [Assign [Name ''threshold''] (Constant (PyInt 1)),
                                         Assign [Name ''threshold''] (Constant (PyInt 2))]))
   \<and> set [Assign [Name ''threshold''] (Constant (PyInt 1)),
           Assign [Name ''threshold''] (Constant (PyInt 2))]
       \<subseteq> set (walk [Assign [Name ''threshold''] (Constant (PyInt 1)),
                       Assign [Name ''threshold''] (Constant (PyInt 2))])"
  using scrape_init_walks_whole_tree
          [of "[Assign [Name ''threshold''] (Constant (PyInt 1)),
                Assign [Name ''threshold''] (Constant (PyInt 2))]"]
  by (simp add: scrape_init_def)

text \<open>
  Claim C9 as stated fails: an assignment nested in a function body is recorded, and,
  coming later in the walk, it replaces the top-level assignment to the same name.
\<close>

theorem scrape_init_nested_assignment_counterexample:
  "scrape_init [FunctionDef ''f'' [Assign [Name ''y''] (Constant (PyInt 1))]]
     = [ConstantVar ''y'' (PyInt 1)]
   \<and> scrape_init [Assign [Name ''x''] (Constant (PyInt 2)),
                  FunctionDef ''f'' [Assign [Name ''x''] (Constant (PyInt 1))]]
     = [ConstantVar ''x'' (PyInt 1)]"
  by (simp add: scrape_init_def)

section \<open>Classification\<close>

lemma scan_induct [consumes 0, case_names Nil Skip Raise Record Expand]:
  assumes nil: "\<And>fuel e fn_code ms vs P. Q fuel e [] fn_code ms vs P"
    and skip: "\<And>fuel e nm obj items fn_code ms vs P.
        classify e nm obj fn_code P = Skip \<Longrightarrow> Q fuel e items fn_code ms vs P
        \<Longrightarrow> Q fuel e ((nm, obj) # items) fn_code ms vs P"
    and raise: "\<And>fuel e nm obj items fn_code ms vs P err.
        classify e nm obj fn_code P = Raise err
        \<Longrightarrow> Q fuel e ((nm, obj) # items) fn_code ms vs P"
    and rcd: "\<And>fuel e nm obj items fn_code ms vs P k rs rvs.
        classify e nm obj fn_code P = Record k rs rvs
        \<Longrightarrow> Q fuel e items fn_code (ms @ rs) (vs @ rvs) (insert k P)
        \<Longrightarrow> Q fuel e ((nm, obj) # items) fn_code ms vs P"
    and expand: "\<And>fuel e nm obj items fn_code ms vs P k info md src.
        classify e nm obj fn_code P = Expand k info md src
        \<Longrightarrow> (\<And>n. fuel = Suc n \<Longrightarrow> Q n e (mod_dict md) src [] [] (insert k P))
        \<Longrightarrow> (\<And>n nms nvs P1. fuel = Suc n
               \<Longrightarrow> scan n e (mod_dict md) src [] [] (insert k P) = Some (Inr (nms, nvs, P1))
               \<Longrightarrow> Q fuel e items fn_code (ms @ nms @ [info]) (vs @ nvs) P1)
        \<Longrightarrow> Q fuel e ((nm, obj) # items) fn_code ms vs P"
  shows "Q fuel e items fn_code ms vs P"
proof (induction fuel e items fn_code ms vs P rule: scan.induct)
  case (1 fuel e fn_code modules variables processed)
  show ?case by (rule nil)
next
  case (2 fuel e nm obj items fn_code modules variables processed)
  show ?case
  proof (cases "classify e nm obj fn_code processed")
    case Skip
    then show ?thesis using "2.IH"(1) by (intro skip)
  next
    case (Raise err)
    then show ?thesis by (rule raise)
  next
    case (Record k rs rvs)
    then show ?thesis using "2.IH"(2) by (intro rcd)
  next
    case (Expand k info md src)
    show ?thesis
    proof (rule expand [OF Expand])
      fix n assume "fuel = Suc n"
      with Expand show "Q n e (mod_dict md) src [] [] (insert k processed)"
        by (rule "2.IH"(3))
    next
      fix n nms nvs P1
      assume "fuel = Suc n"
        and "scan n e (mod_dict md) src [] [] (insert k processed) = Some (Inr (nms, nvs, P1))"
      with Expand show "Q fuel e items fn_code (modules @ nms @ [info]) (variables @ nvs) P1"
        by (intro "2.IH"(4)) auto
    qed
  qed
qed

lemma scan_Skip:
  "classify e nm obj fn_code P = Skip
   \<Longrightarrow> scan fuel e ((nm, obj) # items) fn_code ms vs P = scan fuel e items fn_code ms vs P"
  by simp

lemma scan_Raise:
  "classify e nm obj fn_code P = Raise err
   \<Longrightarrow> scan fuel e ((nm, obj) # items) fn_code ms vs P = Some (Inl err)"
  by simp

lemma scan_Record:
  "classify e nm obj fn_code P = Record k rs rvs
   \<Longrightarrow> scan fuel e ((nm, obj) # items) fn_code ms vs P
       = scan fuel e items fn_code (ms @ rs) (vs @ rvs) (insert k P)"
  by simp

lemma scan_Expand_success:
  assumes "classify e nm obj fn_code P = Expand k info md src"
    and "scan fuel e ((nm, obj) # items) fn_code ms vs P = Some (Inr r)"
  obtains n nms nvs P1 where "fuel = Suc n"
    and "scan n e (mod_dict md) src [] [] (insert k P) = Some (Inr (nms, nvs, P1))"
    and "scan fuel e items fn_code (ms @ nms @ [info]) (vs @ nvs) P1 = Some (Inr r)"
  using assms by (auto split: nat.splits option.splits sum.splits)

lemma scan_append:
  "scan fuel e (xs @ ys) fn_code ms vs P =
     (case scan fuel e xs fn_code ms vs P of
        Some (Inr (ms', vs', P')) \<Rightarrow> scan fuel e ys fn_code ms' vs' P'
      | Some (Inl err) \<Rightarrow> Some (Inl err)
      | None \<Rightarrow> None)"
proof (induction fuel e xs fn_code ms vs P rule: scan_induct)
  case (Nil fuel e fn_code ms vs P)
  show ?case by simp
next
  case (Skip fuel e nm obj items fn_code ms vs P)
  then show ?case by simp
next
  case (Raise fuel e nm obj items fn_code ms vs P err)
  then show ?case by simp
next
  case (Record fuel e nm obj items fn_code ms vs P k rs rvs)
  then show ?case by simp
next
  case (Expand fuel e nm obj items fn_code ms vs P k info md src)
  show ?case
  proof (cases fuel)
    case 0
    with Expand(1) show ?thesis by simp
  next
    case (Suc n)
    show ?thesis
    proof (cases "scan n e (mod_dict md) src [] [] (insert k P)")
      case None
      with Expand(1) Suc show ?thesis by simp
    next
      case (Some r)
      show ?thesis
      proof (cases r)
        case (Inl err)
        with Expand(1) Suc Some show ?thesis by simp
      next
        case (Inr t)
        obtain nms nvs P1 where t: "t = (nms, nvs, P1)" by (cases t)
        from Expand(3) [OF Suc] Some Inr t
        have "scan fuel e (items @ ys) fn_code (ms @ nms @ [info]) (vs @ nvs) P1 =
          (case scan fuel e items fn_code (ms @ nms @ [info]) (vs @ nvs) P1 of
             Some (Inr (ms', vs', P')) \<Rightarrow> scan fuel e ys fn_code ms' vs' P'
           | Some (Inl err) \<Rightarrow> Some (Inl err)
           | None \<Rightarrow> None)"
          by simp
        with Expand(1) Suc Some Inr t show ?thesis by simp
      qed
    qed
  qed
qed

lemma classify_key:
  "classify e nm obj fn_code P = Record k ms vs \<Longrightarrow> hash_key obj = Some k \<and> k \<notin> P"
  "classify e nm obj fn_code P = Expand k info md src \<Longrightarrow> hash_key obj = Some k \<and> k \<notin> P"
  by (auto simp: classify_def split: if_splits option.splits sum.splits attr.splits)

lemma classify_visits:
  assumes "contains nm fn_code" and "\<not> startswith nm ''__''" and "hash_key obj = Some k"
  shows "k \<in> P \<or> (\<exists>err. classify e nm obj fn_code P = Raise err)
         \<or> (\<exists>ms vs. classify e nm obj fn_code P = Record k ms vs)
         \<or> (\<exists>info md src. classify e nm obj fn_code P = Expand k info md src)"
  using assms
  by (auto simp: classify_def split: if_splits option.splits sum.splits attr.splits)

lemma classify_skip_visited:
  "hash_key obj = Some k \<Longrightarrow> k \<in> P \<Longrightarrow> classify e nm obj fn_code P = Skip"
  by (simp add: classify_def)

lemma scan_processed_mono:
  "scan fuel e items fn_code ms vs P = Some (Inr (ms', vs', P')) \<Longrightarrow> P \<subseteq> P'"
proof (induction fuel e items fn_code ms vs P arbitrary: ms' vs' P' rule: scan_induct)
  case (Nil fuel e fn_code ms vs P)
  then show ?case by simp
next
  case (Skip fuel e nm obj items fn_code ms vs P)
  then show ?case by simp
next
  case (Raise fuel e nm obj items fn_code ms vs P err)
  then show ?case by simp
next
  case (Record fuel e nm obj items fn_code ms vs P k rs rvs)
  from Record(1) Record(3) have "insert k P \<subseteq> P'"
    by (intro Record(2)) simp
  then show ?case by auto
next
  case (Expand fuel e nm obj items fn_code ms vs P k info md src)
  from Expand(1) Expand(4) obtain n nms nvs P1 where n: "fuel = Suc n"
    and inner: "scan n e (mod_dict md) src [] [] (insert k P) = Some (Inr (nms, nvs, P1))"
    and rest: "scan fuel e items fn_code (ms @ nms @ [info]) (vs @ nvs) P1 = Some (Inr (ms', vs', P'))"
    by (rule scan_Expand_success)
  have "insert k P \<subseteq> P1" using Expand(2) [OF n inner] .
  moreover have "P1 \<subseteq> P'" using Expand(3) [OF n inner rest] .
  ultimately show ?case by auto
qed

lemma union_members_eq:
  "concat (map union_member args) = map (\<lambda>(n, m). selective_external n m) (class_members args)"
  by (induction args rule: class_members.induct) (simp_all add: selective_external_def)

lemma visited_after:
  assumes "contains nm fn_code" and "\<not> startswith nm ''__''" and "hash_key obj = Some k"
    and run: "scan fuel e ((nm, obj) # items) fn_code ms vs P = Some (Inr (ms', vs', P'))"
  shows "k \<in> P'"
proof -
  consider (seen) "k \<in> P" | (err) err where "classify e nm obj fn_code P = Raise err"
    | (rcd) rs rvs where "classify e nm obj fn_code P = Record k rs rvs"
    | (exp) info md src where "classify e nm obj fn_code P = Expand k info md src"
    using classify_visits [OF assms(1-3), of P e] by blast
  then show ?thesis
  proof cases
    case seen
    with scan_processed_mono [OF run] show ?thesis by auto
  next
    case err
    with run show ?thesis by simp
  next
    case rcd
    with run have "scan fuel e items fn_code (ms @ rs) (vs @ rvs) (insert k P)
                     = Some (Inr (ms', vs', P'))" by simp
    from scan_processed_mono [OF this] show ?thesis by auto
  next
    case exp
    from exp run obtain n nms nvs P1 where
      "scan n e (mod_dict md) src [] [] (insert k P) = Some (Inr (nms, nvs, P1))"
      and "scan fuel e items fn_code (ms @ nms @ [info]) (vs @ nvs) P1 = Some (Inr (ms', vs', P'))"
      by (rule scan_Expand_success)
    from scan_processed_mono [OF this(1)] scan_processed_mono [OF this(2)]
    show ?thesis by auto
  qed
qed

lemma union_member_not_local: "md \<in> set (concat (map union_member args)) \<Longrightarrow> \<not> is_local md"
  by (induction args rule: class_members.induct) auto

lemma classify_Record_entries:
  assumes "classify e nm obj fn_code P = Record k rs rvs"
    and "\<not> contains ''Union'' (type_name obj)"
    and "md \<in> set rs" and "is_local md"
  shows "name md = nm \<and> ((import_type md = ''standard'' \<and> source md = None)
         \<or> (import_type md = ''selective'' \<and> is_typevar obj \<and> source md = Some []))"
  using assms
  by (simp add: classify_def split: if_splits option.splits sum.splits attr.splits) auto

lemma classify_Record_local:
  assumes "classify e nm obj fn_code P = Record k rs rvs" and "(nm, obj) \<in> B"
    and "md \<in> set rs" and "is_local md"
  shows "local_entry_ok B md"
proof (cases "contains ''Union'' (type_name obj)")
  case True
  with assms(1) have "\<exists>args. rs = concat (map union_member args)"
    by (auto simp: classify_def split: if_splits option.splits)
  with assms(3,4) show ?thesis by (auto dest: union_member_not_local)
next
  case False
  from classify_Record_entries [OF assms(1) False assms(3,4)] assms(2)
  show ?thesis
    unfolding local_entry_ok_def sourced_from_def by blast
qed

lemma classify_Expand_facts:
  assumes "classify e nm obj fn_code P = Expand k info md src"
  shows "name info = nm \<and> import_type info = ''selective'' \<and> is_local info
         \<and> source info = Some src \<and> getsource obj = Inr src \<and> \<not> is_typevar obj
         \<and> (\<exists>m. map_of (sys_modules e) m = Some md)"
  using assms
  by (auto simp: classify_def split: if_splits option.splits sum.splits attr.splits)

lemma scan_local_entries:
  assumes "scan fuel e items fn_code ms vs P = Some (Inr (ms', vs', P'))"
    and "set items \<subseteq> B"
    and "\<And>m md. map_of (sys_modules e) m = Some md \<Longrightarrow> set (mod_dict md) \<subseteq> B"
    and "\<forall>md \<in> set ms. is_local md \<longrightarrow> local_entry_ok B md"
  shows "\<forall>md \<in> set ms'. is_local md \<longrightarrow> local_entry_ok B md"
  using assms
proof (induction fuel e items fn_code ms vs P arbitrary: ms' vs' P' rule: scan_induct)
  case (Nil fuel e fn_code ms vs P)
  then show ?case by simp
next
  case (Skip fuel e nm obj items fn_code ms vs P)
  from Skip(1) Skip(3) have run: "scan fuel e items fn_code ms vs P = Some (Inr (ms', vs', P'))"
    by simp
  from Skip(4) have sub: "set items \<subseteq> B" by simp
  show ?case by (rule Skip(2) [OF run sub Skip(5) Skip(6)])
next
  case (Raise fuel e nm obj items fn_code ms vs P err)
  then show ?case by simp
next
  case (Record fuel e nm obj items fn_code ms vs P k rs rvs)
  from Record(1) Record(3)
  have run: "scan fuel e items fn_code (ms @ rs) (vs @ rvs) (insert k P) = Some (Inr (ms', vs', P'))"
    by simp
  from Record(4) have sub: "set items \<subseteq> B" and mem: "(nm, obj) \<in> B" by simp_all
  have inv: "\<forall>md \<in> set (ms @ rs). is_local md \<longrightarrow> local_entry_ok B md"
    using Record(6) classify_Record_local [OF Record(1) mem] by auto
  show ?case by (rule Record(2) [OF run sub Record(5) inv])
next
  case (Expand fuel e nm obj items fn_code ms vs P k info md src)
  from Expand(1) Expand(4) obtain n nms nvs P1 where n: "fuel = Suc n"
    and inner: "scan n e (mod_dict md) src [] [] (insert k P) = Some (Inr (nms, nvs, P1))"
    and rest: "scan fuel e items fn_code (ms @ nms @ [info]) (vs @ nvs) P1 = Some (Inr (ms', vs', P'))"
    by (rule scan_Expand_success)
  from Expand(5) have sub: "set items \<subseteq> B" and mem: "(nm, obj) \<in> B" by simp_all
  note facts = classify_Expand_facts [OF Expand(1)]
  from facts obtain m where "map_of (sys_modules e) m = Some md" by blast
  then have dict: "set (mod_dict md) \<subseteq> B" by (rule Expand(6))
  have empty: "\<forall>x \<in> set []. is_local x \<longrightarrow> local_entry_ok B x" by simp
  have new: "\<forall>x \<in> set nms. is_local x \<longrightarrow> local_entry_ok B x"
    by (rule Expand(2) [OF n inner dict Expand(6) empty])
  have "local_entry_ok B info"
    using facts mem by (auto simp: local_entry_ok_def sourced_from_def)
  with new Expand(7) have inv: "\<forall>x \<in> set (ms @ nms @ [info]). is_local x \<longrightarrow> local_entry_ok B x"
    by auto
  show ?case by (rule Expand(3) [OF n inner rest sub Expand(6) inv])
qed

lemma finite_binding_keys: "finite B \<Longrightarrow> finite (binding_keys B)"
proof -
  assume "finite B"
  then have "finite ((\<lambda>b. hash_key (snd b)) ` B)" by simp
  moreover have "Some ` binding_keys B \<subseteq> (\<lambda>b. hash_key (snd b)) ` B"
    by (force simp: binding_keys_def)
  ultimately have "finite (Some ` binding_keys B)" by (rule rev_finite_subset)
  then show ?thesis by (simp add: finite_image_iff)
qed

lemma finite_scanned_bindings: "finite (scanned_bindings e items)"
  by (simp add: scanned_bindings_def)

lemma scan_enough_fuel:
  assumes "set items \<subseteq> B"
    and "\<And>m md. map_of (sys_modules e) m = Some md \<Longrightarrow> set (mod_dict md) \<subseteq> B"
    and "finite B"
    and "card (binding_keys B - P) \<le> fuel"
  shows "scan fuel e items fn_code ms vs P \<noteq> None"
  using assms
proof (induction fuel e items fn_code ms vs P rule: scan_induct)
  case (Nil fuel e fn_code ms vs P)
  then show ?case by simp
next
  case (Skip fuel e nm obj items fn_code ms vs P)
  from Skip(3) have sub: "set items \<subseteq> B" by simp
  from Skip(2) [OF sub Skip(4) Skip(5) Skip(6)] Skip(1) show ?case by simp
next
  case (Raise fuel e nm obj items fn_code ms vs P err)
  then show ?case by simp
next
  case (Record fuel e nm obj items fn_code ms vs P k rs rvs)
  from Record(3) have sub: "set items \<subseteq> B" by simp
  have fin: "finite (binding_keys B - P)"
    using Record(5) by (simp add: finite_binding_keys)
  have "binding_keys B - insert k P \<subseteq> binding_keys B - P" by auto
  then have "card (binding_keys B - insert k P) \<le> card (binding_keys B - P)"
    using fin by (rule card_mono [rotated])
  with Record(6) have le: "card (binding_keys B - insert k P) \<le> fuel" by simp
  from Record(2) [OF sub Record(4) Record(5) le] Record(1) show ?case by simp
next
  case (Expand fuel e nm obj items fn_code ms vs P k info md src)
  from Expand(4) have sub: "set items \<subseteq> B" and mem: "(nm, obj) \<in> B" by simp_all
  from classify_key(2) [OF Expand(1)] have key: "hash_key obj = Some k" and new: "k \<notin> P"
    by simp_all
  have fin: "finite (binding_keys B - P)"
    using Expand(6) by (simp add: finite_binding_keys)
  have kin: "k \<in> binding_keys B - P"
    using mem key new by (auto simp: binding_keys_def)
  have eq: "binding_keys B - insert k P = (binding_keys B - P) - {k}" by auto
  have less: "card (binding_keys B - insert k P) < card (binding_keys B - P)"
    unfolding eq using fin kin by (rule card_Diff1_less)
  with Expand(7) obtain n where n: "fuel = Suc n" and le: "card (binding_keys B - insert k P) \<le> n"
    by (cases fuel) auto
  from classify_Expand_facts [OF Expand(1)] obtain m where "map_of (sys_modules e) m = Some md"
    by blast
  then have dict: "set (mod_dict md) \<subseteq> B" by (rule Expand(5))
  have inner: "scan n e (mod_dict md) src [] [] (insert k P) \<noteq> None"
    by (rule Expand(2) [OF n dict Expand(5) Expand(6) le])
  show ?case
  proof (cases "scan n e (mod_dict md) src [] [] (insert k P)")
    case None
    with inner show ?thesis by simp
  next
    case (Some r)
    show ?thesis
    proof (cases r)
      case (Inl err)
      with Some Expand(1) n show ?thesis by simp
    next
      case (Inr t)
      obtain nms nvs P1 where t: "t = (nms, nvs, P1)" by (cases t)
      with Some Inr have run: "scan n e (mod_dict md) src [] [] (insert k P) = Some (Inr (nms, nvs, P1))"
        by simp
      from scan_processed_mono [OF run] have "P \<subseteq> P1" by auto
      then have "binding_keys B - P1 \<subseteq> binding_keys B - P" by auto
      then have "card (binding_keys B - P1) \<le> card (binding_keys B - P)"
        using fin by (rule card_mono [rotated])
      with Expand(7) have le1: "card (binding_keys B - P1) \<le> fuel" by simp
      from Expand(3) [OF n run sub Expand(5) Expand(6) le1] Expand(1) n run
      show ?thesis by simp
    qed
  qed
qed

text \<open>
  The model of \<^verbatim>\<open>get_obj_dependencies\<close> bounds the depth of the recursion by
  its fuel. Every recursive call comes after a new object has gone into
  \<^verbatim>\<open>processed\<close>, so the number of hashable objects among the bindings is fuel enough:
  with it the function returns a result or raises, and never runs out.
\<close>

theorem get_obj_dependencies_returns:
  "get_obj_dependencies (card (binding_keys (scanned_bindings e context_globals)))
     e context_globals fn_code processed \<noteq> None"
proof -
  let ?B = "scanned_bindings e context_globals"
  have dicts: "set (mod_dict d) \<subseteq> ?B" if "map_of (sys_modules e) m = Some d" for m d
    using map_of_SomeD [OF that] by (force simp: scanned_bindings_def)
  have globals: "set context_globals \<subseteq> ?B" by (simp add: scanned_bindings_def)
  have "card (binding_keys ?B - processed) \<le> card (binding_keys ?B)"
    by (rule card_mono) (auto simp: finite_binding_keys finite_scanned_bindings)
  from scan_enough_fuel [OF globals dicts finite_scanned_bindings this]
  show ?thesis by (simp add: get_obj_dependencies_def)
qed

text \<open>
  Claim C7. A binding that classification inspects (its name occurs in the body text and
  does not start with two underscores, its object is not yet in \<^verbatim>\<open>processed\<close>)
  whose type name contains \<^verbatim>\<open>Union\<close> and which has \<^verbatim>\<open>__args__\<close> adds exactly one
  union variable, whose value rebuilds the union from the members' names, and one
  selective, non-local entry for each member that is a class, in order; the object goes
  into \<^verbatim>\<open>processed\<close>. \<^verbatim>\<open>scrape_func\<close> turns the union variable into one entry of
  kind \<^verbatim>\<open>union\<close> whose source line assigns that value to the name.
\<close>

theorem union_binding_classified:
  assumes "contains nm fn_code" and "\<not> startswith nm ''__''"
    and "hash_key obj = Some k" and "k \<notin> processed"
    and "contains ''Union'' (type_name obj)" and "dunder_args obj = Some args"
  shows "scan fuel e ((nm, obj) # items) fn_code modules variables processed
           = scan fuel e items fn_code
               (modules @ map (\<lambda>(n, m). selective_external n m) (class_members args))
               (variables @ [UnionVar nm (''Union['' @ join '', '' (map arg_text args) @ '']'')])
               (insert k processed)
         \<and> inline_variable e context_globals
               (UnionVar nm (''Union['' @ join '', '' (map arg_text args) @ '']'')) (ms, class_info)
           = Inr (ms @ [\<lparr>name = nm, module = None, import_type = ''union'', is_local = False,
                          source = Some (nm @ '' = Union['' @ join '', '' (map arg_text args)
                                          @ '']'' @ newline),
                          import_needed = None\<rparr>],
                  Some \<lparr>name = nm, module = None, import_type = ''union'', is_local = False,
                        source = Some (nm @ '' = Union['' @ join '', '' (map arg_text args)
                                        @ '']'' @ newline),
                        import_needed = None\<rparr>)"
proof -
  have "classify e nm obj fn_code processed
          = Record k (concat (map union_member args)) [UnionVar nm (union_value args)]"
    using assms by (simp add: classify_def)
  then show ?thesis
    by (simp add: union_members_eq union_value_def variable_info_def)
qed

theorem union_binding_classified_witness:
  "contains ''Alias'' ''x: Alias'' \<and> \<not> startswith ''Alias'' ''__''
   \<and> hash_key (union_obj 7 [ClassArg ''TypeA'' ''lib'', ClassArg ''TypeB'' ''lib'']) = Some (KRef 7)
   \<and> KRef 7 \<notin> {}
   \<and> contains ''Union'' (type_name (union_obj 7 [ClassArg ''TypeA'' ''lib'', ClassArg ''TypeB'' ''lib'']))
   \<and> dunder_args (union_obj 7 [ClassArg ''TypeA'' ''lib'', ClassArg ''TypeB'' ''lib''])
       = Some [ClassArg ''TypeA'' ''lib'', ClassArg ''TypeB'' ''lib'']
   \<and> get_obj_dependencies 0 example_env
         [(''Alias'', union_obj 7 [ClassArg ''TypeA'' ''lib'', ClassArg ''TypeB'' ''lib''])]
         ''x: Alias'' {}
       = Some (Inr ([selective_external ''TypeA'' ''lib'', selective_external ''TypeB'' ''lib''],
                    [UnionVar ''Alias'' ''Union[TypeA, TypeB]''], {KRef 7}))
   \<and> inline_variable example_env [] (UnionVar ''Alias'' ''Union[TypeA, TypeB]'') ([], None)
       = Inr ([\<lparr>name = ''Alias'', module = None, import_type = ''union'', is_local = False,
                 source = Some (''Alias = Union[TypeA, TypeB]'' @ newline), import_needed = None\<rparr>],
              Some \<lparr>name = ''Alias'', module = None, import_type = ''union'', is_local = False,
                    source = Some (''Alias = Union[TypeA, TypeB]'' @ newline), import_needed = None\<rparr>)"
proof -
  let ?u = "union_obj 7 [ClassArg ''TypeA'' ''lib'', ClassArg ''TypeB'' ''lib'']"
  have h1: "contains ''Alias'' ''x: Alias''" by simp
  have h2: "\<not> startswith ''Alias'' ''__''" by (simp add: startswith_def)
  have h3: "hash_key ?u = Some (KRef 7)" by (simp add: obj_defs)
  have h4: "KRef 7 \<notin> {}" by simp
  have h5: "contains ''Union'' (type_name ?u)" by (simp add: obj_defs)
  have h6: "dunder_args ?u = Some [ClassArg ''TypeA'' ''lib'', ClassArg ''TypeB'' ''lib'']"
    by (simp add: obj_defs)
  from union_binding_classified [OF h1 h2 h3 h4 h5 h6, where fuel = 0 and e = example_env
      and items = "[]" and modules = "[]" and variables = "[]" and context_globals = "[]"
      and ms = "[]" and class_info = None]
    h1 h2 h3 h4 h5 h6
  show ?thesis
    by (simp add: get_obj_dependencies_def)
qed

text \<open>
  Claim C6, as amended. Let the identical object be bound under two names in one scope,
  the earlier name occurring in the body text and not starting with two underscores.
  When the run comes to the later binding, the object is in \<^verbatim>\<open>processed\<close> (or the
  run has raised before), because the set holds objects, not names; the later binding is
  skipped, and the run is in every respect the run over the scope without it.
\<close>

theorem later_binding_of_same_object_skipped:
  assumes n1: "contains n1 fn_code" and nd: "\<not> startswith n1 ''__''"
    and key: "hash_key obj = Some k"
  shows "scan fuel e (pre @ (n1, obj) # mid @ (n2, obj) # post) fn_code ms vs P
           = scan fuel e (pre @ (n1, obj) # mid @ post) fn_code ms vs P"
proof (cases "scan fuel e pre fn_code ms vs P")
  case None
  then show ?thesis by (simp add: scan_append)
next
  case (Some r)
  show ?thesis
  proof (cases r)
    case (Inl err)
    with Some show ?thesis by (simp add: scan_append)
  next
    case (Inr t)
    obtain m1 v1 P1 where t: "t = (m1, v1, P1)" by (cases t)
    have pre: "scan fuel e (pre @ ys) fn_code ms vs P = scan fuel e ys fn_code m1 v1 P1" for ys
      using Some Inr t by (simp add: scan_append)
    have "scan fuel e (((n1, obj) # mid) @ (n2, obj) # post) fn_code m1 v1 P1
            = scan fuel e (((n1, obj) # mid) @ post) fn_code m1 v1 P1"
    proof (cases "scan fuel e ((n1, obj) # mid) fn_code m1 v1 P1")
      case None
      then show ?thesis by (simp only: scan_append option.case)
    next
      case (Some r2)
      show ?thesis
      proof (cases r2)
        case (Inl err)
        with Some show ?thesis by (simp only: scan_append option.case sum.case)
      next
        case (Inr t2)
        obtain m2 v2 P2 where t2: "t2 = (m2, v2, P2)" by (cases t2)
        have "k \<in> P2"
          using visited_after [OF n1 nd key] Some Inr t2 by simp
        then have "classify e n2 obj fn_code P2 = Skip"
          using key by (simp add: classify_skip_visited)
        then have "scan fuel e ((n2, obj) # post) fn_code m2 v2 P2 = scan fuel e post fn_code m2 v2 P2"
          by simp
        with Some Inr t2 show ?thesis
          by (simp only: scan_append option.case sum.case prod.case)
      qed
    qed
    then show ?thesis using pre [of "(n1, obj) # mid @ (n2, obj) # post"] pre [of "(n1, obj) # mid @ post"]
      by simp
  qed
qed

theorem later_binding_of_same_object_skipped_witness:
  "contains ''fmt'' ''fmt(1); show(2)'' \<and> \<not> startswith ''fmt'' ''__''
   \<and> hash_key (function_obj 1 ''helpers'' (Inr ''def fmt(x): return x'')) = Some (KRef 1)
   \<and> scan 1 example_env
         ([] @ (''fmt'', function_obj 1 ''helpers'' (Inr ''def fmt(x): return x''))
             # [] @ (''show'', function_obj 1 ''helpers'' (Inr ''def fmt(x): return x'')) # [])
         ''fmt(1); show(2)'' [] [] {}
       = scan 1 example_env
           ([] @ (''fmt'', function_obj 1 ''helpers'' (Inr ''def fmt(x): return x'')) # [] @ [])
           ''fmt(1); show(2)'' [] [] {}
   \<and> get_obj_dependencies 1 example_env
         [(''fmt'', function_obj 1 ''helpers'' (Inr ''def fmt(x): return x'')),
          (''show'', function_obj 1 ''helpers'' (Inr ''def fmt(x): return x''))]
         ''fmt(1); show(2)'' {}
       = Some (Inr ([\<lparr>name = ''fmt'', module = Some ''helpers'', import_type = ''selective'',
                       is_local = True, source = Some ''def fmt(x): return x'',
                       import_needed = None\<rparr>], [], {KRef 1}))"
proof -
  let ?f = "function_obj 1 ''helpers'' (Inr ''def fmt(x): return x'')"
  have h1: "contains ''fmt'' ''fmt(1); show(2)''" by simp
  have h2: "\<not> startswith ''fmt'' ''__''" by (simp add: startswith_def)
  have h3: "hash_key ?f = Some (KRef 1)" by (simp add: obj_defs)
  have r: "get_obj_dependencies 1 example_env [(''fmt'', ?f), (''show'', ?f)] ''fmt(1); show(2)'' {}
       = Some (Inr ([\<lparr>name = ''fmt'', module = Some ''helpers'', import_type = ''selective'',
                       is_local = True, source = Some ''def fmt(x): return x'',
                       import_needed = None\<rparr>], [], {KRef 1}))"
    by (simp add: eval_defs obj_defs env_defs)
  from later_binding_of_same_object_skipped [OF h1 h2 h3, of 1 example_env "[]" "[]" "''show''" "[]" "[]" "[]" "{}"]
    h1 h2 h3 r
  show ?thesis by blast
qed

text \<open>
  Claim C6 as stated fails in two ways. A first name that starts with two underscores is
  passed over before the object goes into \<^verbatim>\<open>processed\<close>, so the entry bears the
  later name. And an object whose module is already in \<^verbatim>\<open>processed\<close> (here through
  \<^verbatim>\<open>import helpers\<close>) gets no entry at all, under either name: not exactly one.
\<close>

theorem first_name_counterexample:
  "get_obj_dependencies 5 example_env
      [(''__impl'', function_obj 9 ''logging'' (Inl OSError)), (''impl'', function_obj 9 ''logging'' (Inl OSError))]
      ''__impl()'' {}
     = Some (Inr ([selective_external ''impl'' ''logging''], [], {KRef 9}))
   \<and> get_obj_dependencies 5 example_env
      [(''helpers'', module_obj 100 ''helpers'' (Str ''/home/u/proj/helpers.py'')),
       (''fmt'', function_obj 1 ''helpers'' (Inr ''def fmt(x): return x'')),
       (''show'', function_obj 1 ''helpers'' (Inr ''def fmt(x): return x''))]
      ''helpers.x; fmt(1); show(2)'' {}
     = Some (Inr ([\<lparr>name = ''helpers'', module = Some ''helpers'', import_type = ''standard'',
                     is_local = True, source = None, import_needed = None\<rparr>], [],
                  {KRef 1, KRef 100}))"
  by (simp add: eval_defs obj_defs env_defs selective_external_def)

text \<open>
  Claim C5, as amended. \<^verbatim>\<open>get_obj_dependencies\<close> handles no exception. Let the
  bindings before it be classified without error, and let the run then reach a binding
  that it treats as a local reference: the name occurs in the body text and does not
  start with two underscores; the object is hashable, not yet in \<^verbatim>\<open>processed\<close>, and
  no union, primitive or module; its owning module is loaded, is local, and is itself not
  in \<^verbatim>\<open>processed\<close>; the object is no type variable. When \<^verbatim>\<open>inspect.getsource\<close>
  raises for that object, the run raises the same exception and returns no result,
  whatever bindings follow.
\<close>

theorem unretrievable_source_aborts:
  assumes pre: "scan fuel e pre fn_code [] [] processed = Some (Inr (ms, vs, P'))"
    and "contains nm fn_code" and "\<not> startswith nm ''__''"
    and "hash_key obj = Some k" and "k \<notin> P'"
    and "\<not> contains ''Union'' (type_name obj)" and "literal_text obj = None"
    and "module_view obj = None" and "dunder_module obj = Str m"
    and "map_of (sys_modules e) m = Some md" and "mod_key md \<notin> insert k P'"
    and "is_local_module (cwd e) (mod_file md) = Inr True"
    and "\<not> is_typevar obj" and "getsource obj = Inl err"
  shows "get_obj_dependencies fuel e (pre @ (nm, obj) # post) fn_code processed = Some (Inl err)"
proof -
  have "classify e nm obj fn_code P' = Raise err"
    using assms(2-) by (simp add: classify_def)
  then show ?thesis
    using pre by (simp add: get_obj_dependencies_def scan_append)
qed

theorem unretrievable_source_aborts_witness:
  "scan 1 example_env [(''LIMIT'', str_obj ''5'')] ''draw(LIMIT)'' [] [] {}
     = Some (Inr ([], [ConstantVar ''LIMIT'' (PyStr ''5'')], {KStr ''5''}))
   \<and> contains ''draw'' ''draw(LIMIT)'' \<and> \<not> startswith ''draw'' ''__''
   \<and> hash_key (instance_obj 5 ''Widget'' ''helpers'') = Some (KRef 5) \<and> KRef 5 \<notin> {KStr ''5''}
   \<and> \<not> contains ''Union'' (type_name (instance_obj 5 ''Widget'' ''helpers''))
   \<and> literal_text (instance_obj 5 ''Widget'' ''helpers'') = None
   \<and> module_view (instance_obj 5 ''Widget'' ''helpers'') = None
   \<and> dunder_module (instance_obj 5 ''Widget'' ''helpers'') = Str ''helpers''
   \<and> map_of (sys_modules example_env) ''helpers'' = Some helpers_module
   \<and> mod_key helpers_module \<notin> insert (KRef 5) {KStr ''5''}
   \<and> is_local_module (cwd example_env) (mod_file helpers_module) = Inr True
   \<and> \<not> is_typevar (instance_obj 5 ''Widget'' ''helpers'')
   \<and> getsource (instance_obj 5 ''Widget'' ''helpers'') = Inl TypeError
   \<and> get_obj_dependencies 1 example_env
         ([(''LIMIT'', str_obj ''5'')] @ (''draw'', instance_obj 5 ''Widget'' ''helpers'')
            # [(''later'', str_obj ''x'')])
         ''draw(LIMIT)'' {}
       = Some (Inl TypeError)"
proof -
  let ?w = "instance_obj 5 ''Widget'' ''helpers''"
  have p: "scan 1 example_env [(''LIMIT'', str_obj ''5'')] ''draw(LIMIT)'' [] [] {}
             = Some (Inr ([], [ConstantVar ''LIMIT'' (PyStr ''5'')], {KStr ''5''}))"
    by (simp add: eval_defs obj_defs env_defs)
  have h1: "contains ''draw'' ''draw(LIMIT)''" by simp
  have h2: "\<not> startswith ''draw'' ''__''" by (simp add: startswith_def)
  have h3: "hash_key ?w = Some (KRef 5)" by (simp add: obj_defs)
  have h4: "KRef 5 \<notin> {KStr ''5''}" by simp
  have h5: "\<not> contains ''Union'' (type_name ?w)" by (simp add: obj_defs)
  have h6: "literal_text ?w = None" by (simp add: obj_defs)
  have h7: "module_view ?w = None" by (simp add: obj_defs)
  have h8: "dunder_module ?w = Str ''helpers''" by (simp add: obj_defs)
  have h9: "map_of (sys_modules example_env) ''helpers'' = Some helpers_module"
    by (simp add: example_env_def)
  have h10: "mod_key helpers_module \<notin> insert (KRef 5) {KStr ''5''}"
    by (simp add: helpers_module_def)
  have h11: "is_local_module (cwd example_env) (mod_file helpers_module) = Inr True"
    by (simp add: eval_defs env_defs)
  have h12: "\<not> is_typevar ?w" by (simp add: obj_defs)
  have h13: "getsource ?w = Inl TypeError" by (simp add: obj_defs)
  from unretrievable_source_aborts [OF p h1 h2 h3 h4 h5 h6 h7 h8 h9 h10 h11 h12 h13,
      of "[(''later'', str_obj ''x'')]"]
    p h1 h2 h3 h4 h5 h6 h7 h8 h9 h10 h11 h12 h13
  show ?thesis by blast
qed

text \<open>
  Claim C5 as stated fails: a local function without retrievable source raises
  \<^verbatim>\<open>OSError\<close>, and an unhashable object (a list) whose name occurs in the body text
  raises \<^verbatim>\<open>TypeError\<close> at the test \<^verbatim>\<open>obj not in processed\<close>.
\<close>

theorem get_obj_dependencies_raises_counterexample:
  "get_obj_dependencies 5 example_env [(''fmt'', function_obj 1 ''helpers'' (Inl OSError))] ''fmt(1)'' {}
     = Some (Inl OSError)
   \<and> get_obj_dependencies 5 example_env [(''DEFAULTS'', list_obj)] ''print(DEFAULTS)'' {}
     = Some (Inl TypeError)"
  by (simp add: eval_defs obj_defs env_defs)

text \<open>
  Claim C8, as amended. In every result of \<^verbatim>\<open>get_obj_dependencies\<close>, a local
  entry is either a whole-module import (kind \<^verbatim>\<open>standard\<close>), which has no source
  key, or a selective entry that bears the name of a scanned binding and has a source
  key: the empty text when the bound object is a type variable, otherwise the text
  \<^verbatim>\<open>inspect.getsource\<close> returned for the object.
\<close>

theorem local_entries_carry_source:
  assumes run: "get_obj_dependencies fuel e context_globals fn_code processed
                  = Some (Inr (modules, variables, processed'))"
    and md: "md \<in> set modules" and loc: "is_local md"
  shows "(import_type md = ''standard'' \<and> source md = None)
         \<or> (import_type md = ''selective''
            \<and> (\<exists>nm obj. (nm, obj) \<in> scanned_bindings e context_globals \<and> name md = nm
                  \<and> ((is_typevar obj \<and> source md = Some [])
                     \<or> (\<not> is_typevar obj
                        \<and> (\<exists>s. source md = Some s \<and> getsource obj = Inr s)))))"
proof -
  let ?B = "scanned_bindings e context_globals"
  have dicts: "set (mod_dict d) \<subseteq> ?B" if "map_of (sys_modules e) m = Some d" for m d
    using map_of_SomeD [OF that] by (force simp: scanned_bindings_def)
  have globals: "set context_globals \<subseteq> ?B" by (simp add: scanned_bindings_def)
  have empty: "\<forall>x \<in> set []. is_local x \<longrightarrow> local_entry_ok ?B x" by simp
  from run have "scan fuel e context_globals fn_code [] [] processed
                   = Some (Inr (modules, variables, processed'))"
    by (simp add: get_obj_dependencies_def)
  from scan_local_entries [OF this globals dicts empty]
  have "\<forall>x \<in> set modules. is_local x \<longrightarrow> local_entry_ok ?B x" .
  with md loc show ?thesis
    by (simp add: local_entry_ok_def sourced_from_def)
qed

theorem local_entries_carry_source_witness:
  "get_obj_dependencies 1 example_env
     [(''fmt'', function_obj 1 ''helpers'' (Inr ''def fmt(x): return x'')),
      (''T'', typevar_obj 2 ''helpers'')] ''fmt(x: T)'' {}
   = Some (Inr ([\<lparr>name = ''fmt'', module = Some ''helpers'', import_type = ''selective'',
                   is_local = True, source = Some ''def fmt(x): return x'', import_needed = None\<rparr>,
                 \<lparr>name = ''T'', module = Some ''helpers'', import_type = ''selective'',
                   is_local = True, source = Some [], import_needed = None\<rparr>], [], {KRef 2, KRef 1}))
   \<and> (\<exists>nm obj. (nm, obj) \<in> scanned_bindings example_env
                      [(''fmt'', function_obj 1 ''helpers'' (Inr ''def fmt(x): return x'')),
                       (''T'', typevar_obj 2 ''helpers'')]
          \<and> nm = ''fmt'' \<and> getsource obj = Inr ''def fmt(x): return x'')"
proof -
  let ?g = "[(''fmt'', function_obj 1 ''helpers'' (Inr ''def fmt(x): return x'')),
             (''T'', typevar_obj 2 ''helpers'')]"
  let ?t = "\<lparr>name = ''T'', module = Some ''helpers'', import_type = ''selective'',
             is_local = True, source = Some [], import_needed = None\<rparr>"
  let ?f = "\<lparr>name = ''fmt'', module = Some ''helpers'', import_type = ''selective'',
             is_local = True, source = Some ''def fmt(x): return x'', import_needed = None\<rparr>"
  have r: "get_obj_dependencies 1 example_env ?g ''fmt(x: T)'' {}
             = Some (Inr ([?f, ?t], [], {KRef 2, KRef 1}))"
    by (simp add: eval_defs obj_defs env_defs)
  have m: "?f \<in> set [?f, ?t]" by simp
  have l: "is_local ?f" by simp
  from local_entries_carry_source [OF r m l]
  have "\<exists>nm obj. (nm, obj) \<in> scanned_bindings example_env ?g \<and> nm = ''fmt''
          \<and> getsource obj = Inr ''def fmt(x): return x''"
    by auto
  with r show ?thesis by blast
qed

text \<open>
  Claim C8 as stated fails: \<^verbatim>\<open>import helpers\<close> of a module in the project directory
  is recorded as local, with no source text, and it is no type variable.
\<close>

theorem local_module_import_counterexample:
  "get_obj_dependencies 0 example_env
     [(''helpers'', module_obj 100 ''helpers'' (Str ''/home/u/proj/helpers.py''))] ''helpers.fmt(1)'' {}
   = Some (Inr ([\<lparr>name = ''helpers'', module = Some ''helpers'', import_type = ''standard'',
                   is_local = True, source = None, import_needed = None\<rparr>], [], {KRef 100}))"
  by (simp add: eval_defs obj_defs env_defs)

section \<open>The bundle\<close>

lemma assemble_lists:
  assumes "assemble code fname all_modules = Inr res"
  shows "set (out_local_modules res) \<subseteq> {md \<in> set all_modules. name md \<noteq> ''logger''}"
    and "out_selective_import_modules res
           = filter (\<lambda>md. \<not> is_local md \<and> import_type md = ''selective'')
               (filter (\<lambda>md. name md \<noteq> ''logger'') all_modules)"
    and "out_standard_import_modules res
           = filter (\<lambda>md. import_type md = ''standard'') (filter (\<lambda>md. name md \<noteq> ''logger'') all_modules)"
    and "out_variable_modules res
           = filter (\<lambda>md. import_type md = ''variable'') (filter (\<lambda>md. name md \<noteq> ''logger'') all_modules)"
    and "out_union_modules res
           = filter (\<lambda>md. import_type md = ''union'') (filter (\<lambda>md. name md \<noteq> ''logger'') all_modules)"
proof -
  let ?ms = "filter (\<lambda>md. name md \<noteq> ''logger'') all_modules"
  let ?loc = "filter is_local ?ms"
  from assms obtain done_list where
    s: "sort_loop (module_dependencies ?loc) ?loc [] = Inr done_list"
    and r: "res = \<lparr>out_fn_code = code, out_fn_name = fname, out_local_modules = done_list,
                   out_selective_import_modules =
                     filter (\<lambda>md. \<not> is_local md \<and> import_type md = ''selective'') ?ms,
                   out_standard_import_modules = filter (\<lambda>md. import_type md = ''standard'') ?ms,
                   out_variable_modules = filter (\<lambda>md. import_type md = ''variable'') ?ms,
                   out_union_modules = filter (\<lambda>md. import_type md = ''union'') ?ms\<rparr>"
    by (auto simp: assemble_def sort_modules_def Let_def split: sum.splits)
  from sort_loop_mset [OF s] have "set done_list = set ?loc"
    by (metis add_cancel_right_left mset.simps(1) set_mset_mset)
  then show "set (out_local_modules res) \<subseteq> {md \<in> set all_modules. name md \<noteq> ''logger''}"
    by (auto simp: r)
  show "out_selective_import_modules res
           = filter (\<lambda>md. \<not> is_local md \<and> import_type md = ''selective'') ?ms"
    and "out_standard_import_modules res = filter (\<lambda>md. import_type md = ''standard'') ?ms"
    and "out_variable_modules res = filter (\<lambda>md. import_type md = ''variable'') ?ms"
    and "out_union_modules res = filter (\<lambda>md. import_type md = ''union'') ?ms"
    by (simp_all add: r)
qed

lemma scrape_func_success:
  assumes "scrape_func fuel e func variables = Some (Inr res)"
  obtains body context_globals modules new_variables processed all_modules class_info where
    "func_source func = Inr body"
    "context_globals_of e func = Inr context_globals"
    "get_obj_dependencies fuel e context_globals (strip_decorators body) {}
       = Some (Inr (modules, new_variables, processed))"
    "inline_variables e context_globals
       (filter (\<lambda>v. contains (target v) (strip_decorators body)) variables @ new_variables)
       (modules, None) = Inr (all_modules, class_info)"
    "assemble (strip_decorators body) (func_name func) all_modules = Inr res"
  using assms
  by (auto simp: scrape_func_def Let_def split: option.splits sum.splits)

lemma inline_variable_extends:
  "inline_variable e g v (ms, ci) = Inr (ms', ci') \<Longrightarrow> set ms \<subseteq> set ms'"
  by (cases v) (auto simp: Let_def split: if_splits fs_entry.splits option.splits attr.splits prod.splits)

lemma inline_variables_extends:
  "inline_variables e g vars st = Inr st' \<Longrightarrow> set (fst st) \<subseteq> set (fst st')"
proof (induction vars arbitrary: st)
  case Nil
  then show ?case by simp
next
  case (Cons v vars)
  from Cons.prems obtain st1 where 1: "inline_variable e g v st = Inr st1"
    and 2: "inline_variables e g vars st1 = Inr st'"
    by (auto split: sum.splits)
  from 1 have "set (fst st) \<subseteq> set (fst st1)"
    using inline_variable_extends [of e g v "fst st" "snd st" "fst st1" "snd st1"] by simp
  with Cons.IH [OF 2] show ?case by blast
qed

lemma inline_yaml_constant:
  assumes "endswith v ''.yaml''"
    and "files e (''src/'' @ path_name (cwd e) @ ''/'' @ v) = Loads yaml_data"
  shows "inline_variable e g (ConstantVar t (PyStr v)) (ms, ci)
           = Inr (ms @ [variable_info ''variable'' t yaml_data],
                  Some (variable_info ''variable'' t yaml_data))"
  using assms by simp

lemma inline_variables_append:
  "inline_variables e g (xs @ ys) st =
     (case inline_variables e g xs st of
        Inl err \<Rightarrow> Inl err
      | Inr st' \<Rightarrow> inline_variables e g ys st')"
  by (induction xs arbitrary: st) (auto split: sum.splits)

lemma inline_variable_appends:
  "inline_variable e g v (ms, ci) = Inr (ms', ci') \<Longrightarrow> \<exists>rest. ms' = ms @ rest"
  by (cases v) (auto simp: Let_def split: if_splits fs_entry.splits option.splits attr.splits prod.splits)

lemma inline_variables_appends:
  "inline_variables e g vars (ms, ci) = Inr (ms', ci') \<Longrightarrow> \<exists>rest. ms' = ms @ rest"
proof (induction vars arbitrary: ms ci)
  case Nil
  then show ?case by simp
next
  case (Cons v vars)
  from Cons.prems obtain ms1 ci1 where 1: "inline_variable e g v (ms, ci) = Inr (ms1, ci1)"
    and 2: "inline_variables e g vars (ms1, ci1) = Inr (ms', ci')"
    by (auto split: sum.splits)
  from inline_variable_appends [OF 1] obtain r1 where "ms1 = ms @ r1" ..
  moreover from Cons.IH [OF 2] obtain r2 where "ms' = ms1 @ r2" ..
  ultimately show ?case by simp
qed

text \<open>
  Claim C10. Whenever \<^verbatim>\<open>scrape_func\<close> returns, no entry of any of the five lists it
  returns (sorted local entries, selective imports, standard imports, variables, unions)
  bears the name \<^verbatim>\<open>logger\<close>.
\<close>

theorem scrape_func_drops_logger:
  assumes "scrape_func fuel e func variables = Some (Inr res)"
  shows "\<forall>md \<in> set (out_local_modules res) \<union> set (out_selective_import_modules res)
               \<union> set (out_standard_import_modules res) \<union> set (out_variable_modules res)
               \<union> set (out_union_modules res). name md \<noteq> ''logger''"
proof -
  from assms obtain code fname all_modules where a: "assemble code fname all_modules = Inr res"
    by (rule scrape_func_success)
  from assemble_lists(1) [OF a] have "\<forall>md \<in> set (out_local_modules res). name md \<noteq> ''logger''"
    by auto
  then show ?thesis
    by (auto simp: assemble_lists(2-5) [OF a])
qed

theorem scrape_func_drops_logger_witness:
  "scrape_func 1 example_env
     (run_func '' logger.info(fmt(1))''
        [(''logger'', instance_obj 50 ''Logger'' ''logging''),
         (''fmt'', function_obj 1 ''helpers'' (Inr ''def fmt(x): return x''))]) []
   = Some (Inr \<lparr>out_fn_code = ''def run():'' @ newline @ '' logger.info(fmt(1))'',
                out_fn_name = ''run'',
                out_local_modules = [\<lparr>name = ''fmt'', module = Some ''helpers'',
                   import_type = ''selective'', is_local = True,
                   source = Some ''def fmt(x): return x'', import_needed = None\<rparr>],
                out_selective_import_modules = [], out_standard_import_modules = [],
                out_variable_modules = [],
                out_union_modules = []\<rparr>)
   \<and> get_obj_dependencies 1 example_env
        [(''logger'', instance_obj 50 ''Logger'' ''logging''),
         (''fmt'', function_obj 1 ''helpers'' (Inr ''def fmt(x): return x''))]
        (''def run():'' @ newline @ '' logger.info(fmt(1))'') {}
     = Some (Inr ([selective_external ''logger'' ''logging'',
                   \<lparr>name = ''fmt'', module = Some ''helpers'',
                   import_type = ''selective'', is_local = True,
                   source = Some ''def fmt(x): return x'', import_needed = None\<rparr>], [],
                  {KRef 1, KRef 50}))"
proof -
  let ?res = "\<lparr>out_fn_code = ''def run():'' @ newline @ '' logger.info(fmt(1))'',
                out_fn_name = ''run'',
                out_local_modules = [\<lparr>name = ''fmt'', module = Some ''helpers'',
                   import_type = ''selective'', is_local = True,
                   source = Some ''def fmt(x): return x'', import_needed = None\<rparr>],
                out_selective_import_modules = [], out_standard_import_modules = [],
                out_variable_modules = [],
                out_union_modules = []\<rparr>"
  have r: "scrape_func 1 example_env
     (run_func '' logger.info(fmt(1))''
        [(''logger'', instance_obj 50 ''Logger'' ''logging''),
         (''fmt'', function_obj 1 ''helpers'' (Inr ''def fmt(x): return x''))]) [] = Some (Inr ?res)"
    by (simp add: scrape_defs eval_defs obj_defs env_defs)
  have d: "get_obj_dependencies 1 example_env
        [(''logger'', instance_obj 50 ''Logger'' ''logging''),
         (''fmt'', function_obj 1 ''helpers'' (Inr ''def fmt(x): return x''))]
        (''def run():'' @ newline @ '' logger.info(fmt(1))'') {}
     = Some (Inr ([selective_external ''logger'' ''logging'',
                   \<lparr>name = ''fmt'', module = Some ''helpers'',
                   import_type = ''selective'', is_local = True,
                   source = Some ''def fmt(x): return x'', import_needed = None\<rparr>], [],
                  {KRef 1, KRef 50}))"
    by (simp add: eval_defs obj_defs env_defs selective_external_def newline_def)
  from scrape_func_drops_logger [OF r] r d show ?thesis by blast
qed

text \<open>
  Claim C3, as amended. Let \<^verbatim>\<open>scrape_func\<close> return, and let a constant that is not
  named \<^verbatim>\<open>logger\<close> stand in the list of used variables (the given variables whose
  name occurs in the function's text, then those that classification found), its value a
  string ending in \<^verbatim>\<open>.yaml\<close> whose file under \<^verbatim>\<open>src/<name of the working
  directory>/\<close> exists and loads. Then the turn of that constant adds exactly one
  entry, the assignment of the text of the parsed contents to the constant's name, and
  the returned variables are, in order: those left by the variables before it, this one
  entry, and those added by the variables after it. The turn adds no entry with the
  string literal.
\<close>

theorem yaml_constant_inlined:
  assumes res: "scrape_func fuel e func variables = Some (Inr res)"
    and src: "func_source func = Inr text"
    and g: "context_globals_of e func = Inr context_globals"
    and deps: "get_obj_dependencies fuel e context_globals (strip_decorators text) {}
                 = Some (Inr (modules, new_variables, processed))"
    and used: "filter (\<lambda>x. contains (target x) (strip_decorators text)) variables @ new_variables
                 = earlier @ ConstantVar t (PyStr v) # later"
    and yaml: "endswith v ''.yaml''"
    and loads: "files e (''src/'' @ path_name (cwd e) @ ''/'' @ v) = Loads yaml_data"
    and nm: "t \<noteq> ''logger''"
  shows "\<exists>ms1 ci1 rest ci2.
           inline_variables e context_globals earlier (modules, None) = Inr (ms1, ci1)
         \<and> inline_variables e context_globals later
               (ms1 @ [\<lparr>name = t, module = None, import_type = ''variable'', is_local = False,
                         source = Some (t @ '' = '' @ yaml_data @ newline), import_needed = None\<rparr>],
                Some \<lparr>name = t, module = None, import_type = ''variable'', is_local = False,
                      source = Some (t @ '' = '' @ yaml_data @ newline), import_needed = None\<rparr>)
             = Inr (ms1 @ [\<lparr>name = t, module = None, import_type = ''variable'', is_local = False,
                         source = Some (t @ '' = '' @ yaml_data @ newline), import_needed = None\<rparr>]
                        @ rest, ci2)
         \<and> out_variable_modules res
             = filter (\<lambda>md. import_type md = ''variable'') (filter (\<lambda>md. name md \<noteq> ''logger'') ms1)
               @ [\<lparr>name = t, module = None, import_type = ''variable'', is_local = False,
                    source = Some (t @ '' = '' @ yaml_data @ newline), import_needed = None\<rparr>]
               @ filter (\<lambda>md. import_type md = ''variable'') (filter (\<lambda>md. name md \<noteq> ''logger'') rest)"
proof -
  let ?entry = "variable_info ''variable'' t yaml_data"
  from res obtain all_modules class_info where
    inl: "inline_variables e context_globals
            (filter (\<lambda>x. contains (target x) (strip_decorators text)) variables @ new_variables)
            (modules, None) = Inr (all_modules, class_info)"
    and asm: "assemble (strip_decorators text) (func_name func) all_modules = Inr res"
    using src g deps by (elim scrape_func_success) simp
  from inl have run: "inline_variables e context_globals (earlier @ ConstantVar t (PyStr v) # later)
                        (modules, None) = Inr (all_modules, class_info)"
    by (simp only: used)
  then obtain ms1 ci1 where
    1: "inline_variables e context_globals earlier (modules, None) = Inr (ms1, ci1)"
    and 2: "inline_variables e context_globals (ConstantVar t (PyStr v) # later) (ms1, ci1)
              = Inr (all_modules, class_info)"
    by (auto simp: inline_variables_append split: sum.splits)
  from 2 inline_yaml_constant [OF yaml loads, of context_globals t ms1 ci1]
  have 3: "inline_variables e context_globals later (ms1 @ [?entry], Some ?entry)
             = Inr (all_modules, class_info)"
    by simp
  from inline_variables_appends [OF 3] obtain rest where all: "all_modules = (ms1 @ [?entry]) @ rest" ..
  have out: "out_variable_modules res
      = filter (\<lambda>md. import_type md = ''variable'') (filter (\<lambda>md. name md \<noteq> ''logger'') ms1)
        @ [?entry]
        @ filter (\<lambda>md. import_type md = ''variable'') (filter (\<lambda>md. name md \<noteq> ''logger'') rest)"
    using nm by (simp add: assemble_lists(4) [OF asm] all variable_info_def)
  from 1 3 out show ?thesis
    unfolding all variable_info_def by (intro exI conjI) simp_all
qed

theorem yaml_constant_inlined_witness:
  "scrape_func 0 example_env (run_func '' return config_path'' [])
     [ConstantVar ''config_path'' (PyStr ''settings.yaml'')]
   = Some (Inr \<lparr>out_fn_code = ''def run():'' @ newline @ '' return config_path'',
                out_fn_name = ''run'', out_local_modules = [],
                out_selective_import_modules = [], out_standard_import_modules = [],
                out_variable_modules = [\<lparr>name = ''config_path'', module = None,
                   import_type = ''variable'', is_local = False,
                   source = Some (''config_path = {'' @ squote @ ''x'' @ squote @ '': 1}'' @ newline),
                   import_needed = None\<rparr>],
                out_union_modules = []\<rparr>)
   \<and> endswith ''settings.yaml'' ''.yaml''
   \<and> files example_env (''src/'' @ path_name (cwd example_env) @ ''/'' @ ''settings.yaml'')
       = Loads (''{'' @ squote @ ''x'' @ squote @ '': 1}'')
   \<and> ''config_path'' \<noteq> ''logger''
   \<and> (\<exists>ms1 ci1 rest ci2.
         inline_variables example_env [] [] ([], None) = Inr (ms1, ci1)
       \<and> inline_variables example_env [] []
            (ms1 @ [\<lparr>name = ''config_path'', module = None, import_type = ''variable'',
                      is_local = False,
                      source = Some (''config_path'' @ '' = ''
                                      @ (''{'' @ squote @ ''x'' @ squote @ '': 1}'') @ newline),
                      import_needed = None\<rparr>],
             Some \<lparr>name = ''config_path'', module = None, import_type = ''variable'',
                   is_local = False,
                   source = Some (''config_path'' @ '' = ''
                                   @ (''{'' @ squote @ ''x'' @ squote @ '': 1}'') @ newline),
                   import_needed = None\<rparr>)
           = Inr (ms1 @ [\<lparr>name = ''config_path'', module = None, import_type = ''variable'',
                           is_local = False,
                           source = Some (''config_path'' @ '' = ''
                                           @ (''{'' @ squote @ ''x'' @ squote @ '': 1}'') @ newline),
                           import_needed = None\<rparr>] @ rest, ci2))"
proof -
  let ?func = "run_func '' return config_path'' []"
  let ?vars = "[ConstantVar ''config_path'' (PyStr ''settings.yaml'')]"
  let ?code = "''@task'' @ newline @ ''def run():'' @ newline @ '' return config_path''"
  let ?res = "\<lparr>out_fn_code = ''def run():'' @ newline @ '' return config_path'',
                out_fn_name = ''run'', out_local_modules = [],
                out_selective_import_modules = [], out_standard_import_modules = [],
                out_variable_modules = [\<lparr>name = ''config_path'', module = None,
                   import_type = ''variable'', is_local = False,
                   source = Some (''config_path = {'' @ squote @ ''x'' @ squote @ '': 1}'' @ newline),
                   import_needed = None\<rparr>],
                out_union_modules = []\<rparr>"
  have r: "scrape_func 0 example_env ?func ?vars = Some (Inr ?res)"
    by (simp add: scrape_defs eval_defs obj_defs env_defs)
  have s: "func_source ?func = Inr ?code" by (simp add: run_func_def)
  have g: "context_globals_of example_env ?func = Inr []"
    by (simp add: context_globals_of_def run_func_def)
  have d: "get_obj_dependencies 0 example_env [] (strip_decorators ?code) {} = Some (Inr ([], [], {}))"
    by (simp add: get_obj_dependencies_def)
  have u: "filter (\<lambda>x. contains (target x) (strip_decorators ?code)) ?vars @ []
             = [] @ ConstantVar ''config_path'' (PyStr ''settings.yaml'') # []"
    by (simp add: scrape_defs startswith_def)
  have y: "endswith ''settings.yaml'' ''.yaml''" by (simp add: endswith_def)
  have f: "files example_env (''src/'' @ path_name (cwd example_env) @ ''/'' @ ''settings.yaml'')
             = Loads (''{'' @ squote @ ''x'' @ squote @ '': 1}'')"
    by (simp add: example_env_def path_name_def)
  have n: "''config_path'' \<noteq> ''logger''" by simp
  from yaml_constant_inlined [OF r s g d u y f n] r y f n show ?thesis by blast
qed

text \<open>
  Claim C3 as stated fails for a constant named \<^verbatim>\<open>logger\<close>: the file exists and
  loads, and the filter of line 228 takes the inlined entry out again, so that the
  constant is not inlined at all.
\<close>

theorem yaml_constant_named_logger_counterexample:
  "contains ''logger'' (''def run():'' @ newline @ '' return logger'')
   \<and> endswith ''settings.yaml'' ''.yaml''
   \<and> files example_env (''src/'' @ path_name (cwd example_env) @ ''/'' @ ''settings.yaml'')
       = Loads (''{'' @ squote @ ''x'' @ squote @ '': 1}'')
   \<and> scrape_func 0 example_env (run_func '' return logger'' [])
        [ConstantVar ''logger'' (PyStr ''settings.yaml'')]
      = Some (Inr \<lparr>out_fn_code = ''def run():'' @ newline @ '' return logger'',
                out_fn_name = ''run'', out_local_modules = [],
                out_selective_import_modules = [], out_standard_import_modules = [],
                out_variable_modules = [],
                out_union_modules = []\<rparr>)"
  by (simp add: scrape_defs eval_defs obj_defs env_defs)

text \<open>
  Claim C4 and the code. For a constant whose value ends in \<^verbatim>\<open>.yaml\<close> and whose
  file does not exist, no branch of lines 170 to 192 assigns \<^verbatim>\<open>class_info\<close>, and
  line 193 appends it all the same: as the first variable it raises
  \<^verbatim>\<open>UnboundLocalError\<close> and the extraction aborts; after another variable it appends
  that variable's entry a second time. In neither case is the constant inlined as a
  string literal.
\<close>

theorem missing_yaml_file_raises:
  "files example_env (''src/'' @ path_name (cwd example_env) @ ''/'' @ ''missing.yaml'') = Absent
   \<and> scrape_func 0 example_env (run_func '' return config_path'' [])
        [ConstantVar ''config_path'' (PyStr ''missing.yaml'')]
      = Some (Inl UnboundLocalError)
   \<and> scrape_func 0 example_env (run_func '' return limit, config_path'' [])
        [ConstantVar ''limit'' (PyInt 5), ConstantVar ''config_path'' (PyStr ''missing.yaml'')]
      = Some (Inr \<lparr>out_fn_code = ''def run():'' @ newline @ '' return limit, config_path'',
                out_fn_name = ''run'', out_local_modules = [],
                out_selective_import_modules = [], out_standard_import_modules = [],
                out_variable_modules = [variable_info ''variable'' ''limit'' ''5'',
                                        variable_info ''variable'' ''limit'' ''5''],
                out_union_modules = []\<rparr>)"
  by (simp add: scrape_defs eval_defs obj_defs env_defs int_str_def nat_digits.simps digit_char_def)

end
